theory Spec2Isabelle
  imports
    Complex_Main
    "HOL-Library.AList"
    "HOL-Library.Multiset"
    "HOL-Library.Product_Lexorder"
begin

section \<open>Conventions of the embedding\<close>

text \<open>
  The development embeds the Qblox backend of quantify-scheduler:
  \<^item> \<^verbatim>\<open>quantify/scheduler/backends/qblox_backend.py\<close> (mapping traversal, the
    \<^verbatim>\<open>QASMProgram\<close> emitter, the sequencer and pulsar compilers, frequency
    assignment),
  \<^item> \<^verbatim>\<open>quantify_scheduler/backends/qblox/helpers.py\<close>
    (\<^verbatim>\<open>determine_clock_lo_interm_freqs\<close>,
    \<^verbatim>\<open>assign_pulse_and_acq_info_to_devices\<close>),
  \<^item> \<^verbatim>\<open>quantify/scheduler/backends/pulsar_backend.py\<close>
    (\<^verbatim>\<open>_invert_hardware_mapping\<close>, \<^verbatim>\<open>_extract_interm_freq\<close>).

  Python values are modelled as follows. A JSON-like document is a value of type
  \<open>json\<close>; a \<^verbatim>\<open>dict\<close> is an association list in insertion order (keys of a
  parsed document are distinct, lookups use \<open>map_of\<close>, stores use \<open>AList.update\<close>,
  which overwrites in place as a Python dict does). Python \<^verbatim>\<open>float\<close> is modelled by
  \<open>real\<close>: rounding errors of binary floating point are outside the model, and the
  concrete inputs used below are exactly representable. Python \<^verbatim>\<open>int\<close> is \<open>int\<close>.
  Every \<^verbatim>\<open>raise\<close> is a value \<open>Inl e\<close> of a result type \<open>error + 'a\<close>.
\<close>

datatype json =
    JNone
  | JBool bool
  | JNum real
  | JStr string
  | JList "json list"
  | JDict "(string \<times> json) list"

type_synonym pydict = "(string \<times> json) list"

datatype error =
    ValueError
  | KeyError json
  | IndexError
  | TypeError
  | AttributeError
  | RuntimeError
  | NotImplementedError
  | SyntaxError

definition bind :: "error + 'a \<Rightarrow> ('a \<Rightarrow> error + 'b) \<Rightarrow> error + 'b" where
  "bind m f = (case m of Inl e \<Rightarrow> Inl e | Inr x \<Rightarrow> f x)"

text \<open>\<^verbatim>\<open>d[key]\<close> on a dict: the value, or \<^verbatim>\<open>KeyError(key)\<close>.\<close>

definition getitem :: "pydict \<Rightarrow> string \<Rightarrow> error + json" where
  "getitem d k = (case map_of d k of None \<Rightarrow> Inl (KeyError (JStr k)) | Some v \<Rightarrow> Inr v)"

text \<open>\<^verbatim>\<open>key in d\<close>.\<close>

definition contains :: "pydict \<Rightarrow> string \<Rightarrow> bool" where
  "contains d k = (map_of d k \<noteq> None)"

section \<open>The Q1ASM program under construction (\<^verbatim>\<open>QASMProgram\<close>)\<close>

text \<open>
  \<^verbatim>\<open>Pulsar_sequencer_base.IMMEDIATE_SZ = pow(2, 16) - 1\<close>,
  \<^verbatim>\<open>GRID_TIME_ns = 4\<close>.
\<close>

definition IMMEDIATE_SZ :: int where
  "IMMEDIATE_SZ = 2 ^ 16 - 1"

definition GRID_TIME_ns :: int where
  "GRID_TIME_ns = 4"

text \<open>
  An operand of an instruction is an integer or a string (a register or a label).
  \<^verbatim>\<open>get_instruction_as_list\<close> returns the row
  \<^verbatim>\<open>[label_str, instruction, instr_args, comment_str]\<close>, where
  \<^verbatim>\<open>instr_args = ",".join(str(arg) for arg in args)\<close>. The model keeps the operands
  of \<^verbatim>\<open>instr_args\<close> as the list that is joined, so that an operand can be read back
  without parsing.
\<close>

datatype arg = IntArg int | StrArg string

record row =
  label_str :: string
  instruction :: string
  instr_args :: "arg list"
  comment_str :: string

abbreviation STOP :: string where "STOP \<equiv> ''stop''"
abbreviation NEW_LINE :: string where "NEW_LINE \<equiv> ''''"
abbreviation LOOP :: string where "LOOP \<equiv> ''loop''"
abbreviation MOVE :: string where "MOVE \<equiv> ''move''"
abbreviation SET_MARKER :: string where "SET_MARKER \<equiv> ''set_mrk''"
abbreviation PLAY :: string where "PLAY \<equiv> ''play''"
abbreviation ACQUIRE :: string where "ACQUIRE \<equiv> ''acquire''"
abbreviation WAIT :: string where "WAIT \<equiv> ''wait''"
abbreviation WAIT_SYNC :: string where "WAIT_SYNC \<equiv> ''wait_sync''"
abbreviation UPDATE_PARAMETERS :: string where "UPDATE_PARAMETERS \<equiv> ''upd_param''"
abbreviation SET_AWG_GAIN :: string where "SET_AWG_GAIN \<equiv> ''set_awg_gain''"

definition get_instruction_as_list ::
  "string \<Rightarrow> arg list \<Rightarrow> string option \<Rightarrow> string option \<Rightarrow> error + row" where
  "get_instruction_as_list instr args label comment =
     (let max_args_amount = 3 in
      if length args > max_args_amount then Inl SyntaxError
      else Inr \<lparr> label_str = (case label of Some l \<Rightarrow> l @ '':'' | None \<Rightarrow> ''''),
                 instruction = instr,
                 instr_args = args,
                 comment_str = (case comment of Some c \<Rightarrow> ''# '' @ c | None \<Rightarrow> '''') \<rparr>)"

text \<open>
  \<^verbatim>\<open>QASMProgram\<close> is a list of rows together with the attribute
  \<^verbatim>\<open>elapsed_time\<close> (initially 0). Methods take the program and return the updated
  one.
\<close>

record qasm_program =
  instructions :: "row list"
  elapsed_time :: int

definition QASMProgram :: qasm_program where
  "QASMProgram = \<lparr> instructions = [], elapsed_time = 0 \<rparr>"

definition emit ::
  "string \<Rightarrow> arg list \<Rightarrow> string option \<Rightarrow> string option \<Rightarrow> qasm_program
     \<Rightarrow> error + qasm_program" where
  "emit instr args label comment q =
     bind (get_instruction_as_list instr args label comment)
       (\<lambda>r. Inr (q\<lparr> instructions := instructions q @ [r] \<rparr>))"

text \<open>The loop \<^verbatim>\<open>for _ in range(n): self.emit(...)\<close> of \<^verbatim>\<open>auto_wait\<close>.\<close>

fun emit_times ::
  "nat \<Rightarrow> string \<Rightarrow> arg list \<Rightarrow> string option \<Rightarrow> string option \<Rightarrow> qasm_program
     \<Rightarrow> error + qasm_program" where
  "emit_times 0 instr args label comment q = Inr q"
| "emit_times (Suc n) instr args label comment q =
     bind (emit instr args label comment q) (emit_times n instr args label comment)"

definition auto_wait :: "int \<Rightarrow> qasm_program \<Rightarrow> error + qasm_program" where
  "auto_wait wait_time q =
     (if wait_time \<le> 0 then Inl ValueError
      else
        let immediate_sz = IMMEDIATE_SZ in
        bind (if wait_time > immediate_sz
              then bind (emit_times (nat (wait_time div immediate_sz)) WAIT
                           [IntArg immediate_sz] None (Some ''auto generated wait'') q)
                     (\<lambda>q'. Inr (q', wait_time mod immediate_sz))
              else Inr (q, wait_time))
          (\<lambda>(q1, time_left).
             bind (if time_left > 0 then emit WAIT [IntArg time_left] None None q1
                   else Inr q1)
               (\<lambda>q2. Inr (q2\<lparr> elapsed_time := elapsed_time q2 + wait_time \<rparr>))))"

section \<open>Wait expansion\<close>

lemma bind_Inr [simp]: "bind (Inr x) f = f x"
  by (simp add: bind_def)

lemma bind_Inl [simp]: "bind (Inl e) f = Inl e"
  by (simp add: bind_def)

lemma bind_eq_Inr: "bind m f = Inr y \<longleftrightarrow> (\<exists>x. m = Inr x \<and> f x = Inr y)"
  by (cases m) simp_all

lemma bindE:
  assumes "bind m f = Inr y"
  obtains x where "m = Inr x" and "f x = Inr y"
  using assms by (auto simp: bind_eq_Inr)

lemma emit_short:
  "length args \<le> 3 \<Longrightarrow>
   emit instr args label comment q =
     Inr (q\<lparr> instructions := instructions q @
       [\<lparr> label_str = (case label of Some l \<Rightarrow> l @ '':'' | None \<Rightarrow> ''''),
          instruction = instr, instr_args = args,
          comment_str = (case comment of Some c \<Rightarrow> ''# '' @ c | None \<Rightarrow> '''') \<rparr>] \<rparr>)"
  by (simp add: emit_def get_instruction_as_list_def)

lemma emit_times_short:
  "length args \<le> 3 \<Longrightarrow>
   emit_times n instr args label comment q =
     Inr (q\<lparr> instructions := instructions q @ replicate n
       \<lparr> label_str = (case label of Some l \<Rightarrow> l @ '':'' | None \<Rightarrow> ''''),
         instruction = instr, instr_args = args,
         comment_str = (case comment of Some c \<Rightarrow> ''# '' @ c | None \<Rightarrow> '''') \<rparr> \<rparr>)"
proof (induction n arbitrary: q)
  case 0
  then show ?case by simp
next
  case (Suc n)
  then show ?case
    by (simp add: emit_short replicate_append_same [symmetric] del: replicate_Suc)
      (simp add: replicate_append_same)
qed

text \<open>
  C4. A wait of \<open>W > 0\<close> ns: one \<^verbatim>\<open>wait W\<close> when \<open>W \<le> 65535\<close>; otherwise
  \<open>W div 65535\<close> instructions \<^verbatim>\<open>wait 65535\<close>, followed by \<^verbatim>\<open>wait (W mod 65535)\<close>
  exactly when the remainder is not zero. The elapsed time grows by \<open>W\<close>.
\<close>

theorem auto_wait_expansion:
  assumes "0 < W"
  shows "auto_wait W q =
    Inr (q\<lparr> instructions := instructions q @
           (if W \<le> 65535
            then [\<lparr> label_str = '''', instruction = ''wait'', instr_args = [IntArg W],
                    comment_str = '''' \<rparr>]
            else replicate (nat (W div 65535))
                   \<lparr> label_str = '''', instruction = ''wait'', instr_args = [IntArg 65535],
                     comment_str = ''# auto generated wait'' \<rparr>
                 @ (if W mod 65535 \<noteq> 0
                    then [\<lparr> label_str = '''', instruction = ''wait'',
                            instr_args = [IntArg (W mod 65535)], comment_str = '''' \<rparr>]
                    else [])),
          elapsed_time := elapsed_time q + W \<rparr>)"
proof -
  have sz: "IMMEDIATE_SZ = 65535" by (simp add: IMMEDIATE_SZ_def)
  show ?thesis
  proof (cases "W \<le> 65535")
    case True
    with assms show ?thesis
      unfolding auto_wait_def sz Let_def by (simp add: emit_short)
  next
    case False
    have "0 \<le> W mod 65535" by simp
    then have m: "(0 < W mod 65535) = (W mod 65535 \<noteq> 0)" by linarith
    from False assms show ?thesis
      unfolding auto_wait_def sz Let_def by (simp add: emit_short emit_times_short m)
  qed
qed

theorem auto_wait_expansion_witness:
  "(0::int) < 131072 \<and>
   auto_wait 131072 QASMProgram =
     Inr \<lparr> instructions =
            [\<lparr> label_str = '''', instruction = ''wait'', instr_args = [IntArg 65535],
               comment_str = ''# auto generated wait'' \<rparr>,
             \<lparr> label_str = '''', instruction = ''wait'', instr_args = [IntArg 65535],
               comment_str = ''# auto generated wait'' \<rparr>,
             \<lparr> label_str = '''', instruction = ''wait'', instr_args = [IntArg 2],
               comment_str = '''' \<rparr>],
           elapsed_time = 131072 \<rparr>"
proof -
  have n: "nat (131072 div 65535) = Suc (Suc 0)" by simp
  have r: "(131072::int) mod 65535 = 2" by simp
  show ?thesis
    using auto_wait_expansion [of 131072 QASMProgram] unfolding n r
    by (simp add: QASMProgram_def)
qed

section \<open>Double-precision arithmetic\<close>

text \<open>
  \<^verbatim>\<open>np.round\<close> and the builtin \<^verbatim>\<open>round\<close> round to the nearest integer, a tie to
  the even neighbour.
\<close>

definition np_round :: "real \<Rightarrow> int" where
  "np_round x =
     (let f = \<lfloor>x\<rfloor> in
      if x - real_of_int f < 1 / 2 then f
      else if x - real_of_int f > 1 / 2 then f + 1
      else if even f then f else f + 1)"

text \<open>
  A Python \<^verbatim>\<open>float\<close> is an IEEE 754 binary64 number: the result of \<^verbatim>\<open>*\<close>,
  \<^verbatim>\<open>/\<close> or \<^verbatim>\<open>+\<close> is the exact result rounded to the nearest number with a
  significand of 53 bits, a tie to the even significand. \<open>float_exponent x\<close> is the
  binary exponent of \<open>x\<close>, not below that of the smallest normal number, so that
  \<open>2 powi (float_exponent x - 52)\<close> is the distance of neighbouring floats around
  \<open>x\<close>. Overflow to infinity (beyond about \<open>1.8 * 10 ^ 308\<close>) and NaN are outside
  the model.
\<close>

definition float_exponent :: "real \<Rightarrow> int" where
  "float_exponent x = max \<lfloor>log 2 \<bar>x\<bar>\<rfloor> (- 1022)"

definition round_double :: "real \<Rightarrow> real" where
  "round_double x =
     (if x = 0 then 0
      else let ulp = 2 powi (float_exponent x - 52)
           in real_of_int (np_round (x / ulp)) * ulp)"

lemma np_round_of_int [simp]: "np_round (real_of_int n) = n"
  by (simp add: np_round_def)



lemma float_exponent_le:
  assumes "x \<noteq> 0" and "\<bar>x\<bar> < 2 ^ k" and "k \<le> 1075"
  shows "float_exponent x \<le> int k - 1"
proof -
  from assms(1) have pos: "0 < \<bar>x\<bar>" by simp
  from assms(2) have "\<bar>x\<bar> < 2 powr (real k)" by (simp add: powr_realpow)
  with pos have "log 2 \<bar>x\<bar> < real k" by (simp add: log_less_iff)
  then have "\<lfloor>log 2 \<bar>x\<bar>\<rfloor> < int k" by (simp add: floor_less_iff)
  with assms(3) show ?thesis by (simp add: float_exponent_def)
qed

text \<open>A number with at most 53 significant bits is its own rounding.\<close>

lemma round_double_dyadic:
  assumes x: "x = real_of_int n / 2 ^ j" and lt: "\<bar>x\<bar> < 2 ^ (53 - j)" and j: "j \<le> 53"
  shows "round_double x = x"
proof (cases "x = 0")
  case True
  then show ?thesis by (simp add: round_double_def)
next
  case False
  define e where "e = float_exponent x"
  from float_exponent_le [OF False lt] j have e: "e \<le> 52 - int j"
    by (simp add: e_def of_nat_diff)
  define d where "d = nat (52 - int j - e)"
  from e have d: "52 - e = int j + int d" by (simp add: d_def)
  have ulp: "(2::real) powi (e - 52) = 1 / (2 ^ j * 2 ^ d)"
  proof -
    have "e - 52 = - (int (j + d))" using d by simp
    then have "(2::real) powi (e - 52) = 2 powi (- int (j + d))" by simp
    also have "\<dots> = 1 / 2 ^ (j + d)"
      by (simp only: power_int_minus power_int_of_nat inverse_eq_divide)
    finally show ?thesis by (simp add: power_add)
  qed
  have q: "x / 2 powi (e - 52) = real_of_int (n * 2 ^ d)"
    unfolding ulp x by simp
  have "round_double x = real_of_int (np_round (x / 2 powi (e - 52))) * 2 powi (e - 52)"
    using False by (simp add: round_double_def e_def Let_def)
  also have "\<dots> = real_of_int (n * 2 ^ d) * 2 powi (e - 52)"
    unfolding q by (simp only: np_round_of_int)
  also have "\<dots> = x" unfolding ulp x by simp
  finally show ?thesis .
qed

lemma round_double_of_int:
  assumes "\<bar>n\<bar> < 2 ^ 53"
  shows "round_double (real_of_int n) = real_of_int n"
proof -
  from assms have "real_of_int \<bar>n\<bar> < real_of_int (2 ^ 53)" by (simp only: of_int_less_iff)
  then have "\<bar>real_of_int n\<bar> < 2 ^ (53 - 0)" by simp
  with round_double_dyadic [of "real_of_int n" n 0] show ?thesis by simp
qed


lemma round_double_0 [simp]: "round_double 0 = 0"
  by (simp add: round_double_def)

lemma round_double_numeral:
  "numeral k < (2::int) ^ 53 \<Longrightarrow> round_double (numeral k) = numeral k"
  "numeral k < (2::int) ^ 53 \<Longrightarrow> round_double (- numeral k) = - numeral k"
  "round_double 1 = 1"
  "round_double (- 1) = - 1"
  using round_double_of_int [of "numeral k"] round_double_of_int [of "- numeral k"]
    round_double_of_int [of 1] round_double_of_int [of "- 1"]
  by simp_all

section \<open>Runtime settings of a pulse\<close>

record QASMRuntimeSettings =
  awg_gain_0 :: real
  awg_gain_1 :: real
  awg_offset_0 :: real
  awg_offset_1 :: real

record OpInfo =
  uuid :: int
  data :: pydict
  timing :: real
  pulse_settings :: "QASMRuntimeSettings option"

definition is_acquisition :: "OpInfo \<Rightarrow> bool" where
  "is_acquisition operation = contains (data operation) ''acq_index''"

definition duration :: "OpInfo \<Rightarrow> error + json" where
  "duration operation = getitem (data operation) ''duration''"

function str_nat :: "nat \<Rightarrow> string" where
  "str_nat n =
     (if n < 10 then [''0123456789'' ! n]
      else str_nat (n div 10) @ [''0123456789'' ! (n mod 10)])"
  by pat_completeness auto
termination
  by (relation "measure id") auto

declare str_nat.simps [simp del]

definition str_int :: "int \<Rightarrow> string" where
  "str_int i = (if i < 0 then CHR ''-'' # str_nat (nat (- i)) else str_nat (nat i))"

definition expand_from_normalised_range :: "real \<Rightarrow> error + int" where
  "expand_from_normalised_range val =
     (let immediate_sz = IMMEDIATE_SZ in
      if \<bar>val\<bar> > 1.0 then Inl ValueError
      else Inr \<lfloor>round_double (val * real_of_int immediate_sz) / 2\<rfloor>)"

definition update_runtime_settings :: "OpInfo \<Rightarrow> qasm_program \<Rightarrow> error + qasm_program" where
  "update_runtime_settings operation q =
     (case pulse_settings operation of
        None \<Rightarrow> Inl RuntimeError
      | Some s \<Rightarrow>
          bind (expand_from_normalised_range (awg_gain_0 s)) (\<lambda>awg_gain_path0.
          bind (expand_from_normalised_range (awg_gain_1 s)) (\<lambda>awg_gain_path1.
            emit SET_AWG_GAIN [IntArg awg_gain_path0, IntArg awg_gain_path1] None
              (Some (''setting gain for '' @ str_int (uuid operation))) q)))"

lemma expand_in_range:
  "\<bar>v\<bar> \<le> 1 \<Longrightarrow>
   expand_from_normalised_range v = Inr \<lfloor>round_double (v * 65535) / 2\<rfloor>"
  by (simp add: expand_from_normalised_range_def IMMEDIATE_SZ_def)

lemma expand_out_of_range:
  "\<bar>v\<bar> > 1 \<Longrightarrow> expand_from_normalised_range v = Inl ValueError"
  by (simp add: expand_from_normalised_range_def)



lemma update_runtime_settings_out_of_range:
  assumes "pulse_settings operation = Some s"
    and "\<bar>awg_gain_0 s\<bar> > 1 \<or> \<bar>awg_gain_1 s\<bar> > 1"
  shows "update_runtime_settings operation q = Inl ValueError"
proof (cases "\<bar>awg_gain_0 s\<bar> > 1")
  case True
  with assms show ?thesis
    by (simp add: update_runtime_settings_def expand_out_of_range)
next
  case False
  with assms(2) have "\<bar>awg_gain_1 s\<bar> > 1" by simp
  moreover from False have "\<bar>awg_gain_0 s\<bar> \<le> 1" by simp
  ultimately show ?thesis using assms(1)
    by (simp add: update_runtime_settings_def expand_out_of_range expand_in_range)
qed

section \<open>Frequency resolution (\<^verbatim>\<open>determine_clock_lo_interm_freqs\<close>)\<close>

text \<open>
  The dataclass \<^verbatim>\<open>Frequencies\<close> has three optional fields, each \<^verbatim>\<open>None\<close> by
  default.
\<close>

record Frequencies =
  clock :: "real option"
  LO :: "real option"
  IF :: "real option"

text \<open>
  The inner function \<^verbatim>\<open>_downconvert_clock\<close>. The warning issued for a downconverter
  frequency of 0 has no effect on the result.
\<close>

definition downconvert_clock :: "real \<Rightarrow> real \<Rightarrow> error + real" where
  "downconvert_clock downconverter_freq clock_freq =
     (if downconverter_freq < 0 then Inl ValueError
      else if downconverter_freq < clock_freq then Inl ValueError
      else Inr (downconverter_freq - clock_freq))"

definition determine_clock_lo_interm_freqs ::
  "real \<Rightarrow> real option \<Rightarrow> real option \<Rightarrow> real option \<Rightarrow> bool \<Rightarrow> error + Frequencies" where
  "determine_clock_lo_interm_freqs clock_freq lo_freq interm_freq downconverter_freq mix_lo =
     (let freqs = \<lparr> clock = Some clock_freq, LO = lo_freq, IF = interm_freq \<rparr> in
      bind (case downconverter_freq of
              None \<Rightarrow> Inr (clock_freq, freqs)
            | Some d \<Rightarrow> bind (downconvert_clock d clock_freq)
                         (\<lambda>c. Inr (c, freqs\<lparr> clock := Some c \<rparr>)))
        (\<lambda>(freqs_clock, freqs).
           if \<not> mix_lo then Inr (freqs\<lparr> LO := clock freqs, IF := None \<rparr>)
           else
             let freqs = (case interm_freq of
                            Some f \<Rightarrow> freqs\<lparr> LO := Some (freqs_clock - f) \<rparr>
                          | None \<Rightarrow> freqs);
                 freqs = (case lo_freq of
                            Some l \<Rightarrow> freqs\<lparr> IF := Some (freqs_clock - l) \<rparr>
                          | None \<Rightarrow> freqs)
             in Inr freqs))"


lemma determine_both_declared:
  "determine_clock_lo_interm_freqs f_RF (Some f_LO) (Some f_IF) None True =
     Inr \<lparr> clock = Some f_RF, LO = Some (f_RF - f_IF), IF = Some (f_RF - f_LO) \<rparr>"
  by (simp add: determine_clock_lo_interm_freqs_def)

text \<open>
  C3 at the input of scenario S4: \<open>lo_freq = 5 GHz\<close> and \<open>interm_freq = 50 MHz\<close> are both
  declared for a clock of 5.01 GHz. No error is raised; the function returns
  \<open>LO = 4.96 GHz\<close> and \<open>IF = 10 MHz\<close>, whose sum is not the clock frequency.
\<close>

theorem over_constrained_not_detected:
  "determine_clock_lo_interm_freqs 5010000000 (Some 5000000000) (Some 50000000) None True =
     Inr \<lparr> clock = Some 5010000000, LO = Some 4960000000, IF = Some 10000000 \<rparr>
   \<and> (4960000000 :: real) + 10000000 \<noteq> 5010000000"
  by (simp add: determine_clock_lo_interm_freqs_def)

section \<open>Traversal of the hardware mapping\<close>

text \<open>
  \<^verbatim>\<open>find_inner_dicts_containing_key(d, key)\<close>. The call \<^verbatim>\<open>d.values()\<close> raises
  \<^verbatim>\<open>AttributeError\<close> when \<open>d\<close> is not a dict; inside the loop over the items of a
  list, that exception is caught and the item is skipped. A value that is a dict is
  searched recursively, also when \<open>d\<close> itself holds the key.
\<close>

fun find_inner_dicts_containing_key :: "json \<Rightarrow> string \<Rightarrow> error + pydict list"
  and find_in_values :: "(string \<times> json) list \<Rightarrow> string \<Rightarrow> error + pydict list"
  and find_in_items :: "json list \<Rightarrow> string \<Rightarrow> error + pydict list"
where
  "find_inner_dicts_containing_key (JDict d) key =
     bind (find_in_values d key)
       (\<lambda>found. Inr ((if contains d key then [d] else []) @ found))"
| "find_inner_dicts_containing_key JNone key = Inl AttributeError"
| "find_inner_dicts_containing_key (JBool b) key = Inl AttributeError"
| "find_inner_dicts_containing_key (JNum x) key = Inl AttributeError"
| "find_inner_dicts_containing_key (JStr s) key = Inl AttributeError"
| "find_inner_dicts_containing_key (JList l) key = Inl AttributeError"
| "find_in_values [] key = Inr []"
| "find_in_values ((k, val) # rest) key =
     bind (case val of
             JDict d \<Rightarrow> find_inner_dicts_containing_key (JDict d) key
           | JList items \<Rightarrow> find_in_items items key
           | _ \<Rightarrow> Inr [])
       (\<lambda>found. bind (find_in_values rest key) (\<lambda>more. Inr (found @ more)))"
| "find_in_items [] key = Inr []"
| "find_in_items (i_item # rest) key =
     bind (case find_inner_dicts_containing_key i_item key of
             Inl AttributeError \<Rightarrow> Inr []
           | r \<Rightarrow> r)
       (\<lambda>found. bind (find_in_items rest key) (\<lambda>more. Inr (found @ more)))"

text \<open>
  \<^verbatim>\<open>find_all_port_clock_combinations(d)\<close>: the loop over the dicts that hold
  \<^verbatim>\<open>"port"\<close>.
\<close>

fun port_clocks_of :: "pydict list \<Rightarrow> error + (json \<times> json) list" where
  "port_clocks_of [] = Inr []"
| "port_clocks_of (inner_dict # rest) =
     (if contains inner_dict ''port'' then
        bind (getitem inner_dict ''port'') (\<lambda>port.
          if port = JNone then port_clocks_of rest
          else if \<not> contains inner_dict ''clock'' then Inl AttributeError
          else bind (getitem inner_dict ''clock'') (\<lambda>clk.
                 bind (port_clocks_of rest) (\<lambda>more. Inr ((port, clk) # more))))
      else port_clocks_of rest)"

definition find_all_port_clock_combinations :: "json \<Rightarrow> error + (json \<times> json) list" where
  "find_all_port_clock_combinations d =
     bind (find_inner_dicts_containing_key d ''port'') port_clocks_of"

text \<open>
  A tuple is a dict key only when its components are hashable; a list or a dict is
  not (\<^verbatim>\<open>TypeError\<close>). In the mapping documents ports and clocks are strings or
  \<^verbatim>\<open>null\<close>, where Python's key equality is structural equality.
\<close>

fun hashable :: "json \<Rightarrow> bool" where
  "hashable (JList l) = False"
| "hashable (JDict d) = False"
| "hashable v = True"

type_synonym portclock_map = "((json \<times> json) \<times> string) list"

text \<open>The inner loop \<^verbatim>\<open>for portclock in portclocks: portclock_map[portclock] = device_name\<close>.\<close>

fun store_portclocks ::
  "(json \<times> json) list \<Rightarrow> string \<Rightarrow> portclock_map \<Rightarrow> error + portclock_map" where
  "store_portclocks [] device_name portclock_map = Inr portclock_map"
| "store_portclocks (portclock # rest) device_name portclock_map =
     (if hashable (fst portclock) \<and> hashable (snd portclock)
      then store_portclocks rest device_name (AList.update portclock device_name portclock_map)
      else Inl TypeError)"

text \<open>The outer loop \<^verbatim>\<open>for device_name, device_info in mapping.items()\<close>.\<close>

fun port_clock_to_device_loop ::
  "(string \<times> json) list \<Rightarrow> portclock_map \<Rightarrow> error + portclock_map" where
  "port_clock_to_device_loop [] portclock_map = Inr portclock_map"
| "port_clock_to_device_loop ((device_name, device_info) # rest) portclock_map =
     (case device_info of
        JDict d \<Rightarrow>
          bind (find_all_port_clock_combinations device_info) (\<lambda>portclocks.
          bind (store_portclocks portclocks device_name portclock_map)
            (port_clock_to_device_loop rest))
      | _ \<Rightarrow> port_clock_to_device_loop rest portclock_map)"

definition generate_port_clock_to_device_map :: "pydict \<Rightarrow> error + portclock_map" where
  "generate_port_clock_to_device_map mapping = port_clock_to_device_loop mapping []"

text \<open>On a dict the traversal never raises.\<close>

lemma find_total_aux:
  "(\<exists>r. find_inner_dicts_containing_key v key = Inr r)
     \<or> (find_inner_dicts_containing_key v key = Inl AttributeError \<and> (\<forall>d. v \<noteq> JDict d))"
  "\<exists>r. find_in_values kvs key = Inr r"
  "\<exists>r. find_in_items items key = Inr r"
proof (induction v key and kvs key and items key
    rule: find_inner_dicts_containing_key_find_in_values_find_in_items.induct)
  case (1 d key)
  then show ?case by auto
next
  case (8 k val rest key)
  then show ?case by (cases val) auto
next
  case (10 i_item rest key)
  then show ?case by (auto split: sum.splits error.splits)
qed simp_all

lemma find_dict_total:
  "\<exists>r. find_inner_dicts_containing_key (JDict d) key = Inr r"
  using find_total_aux(2) [of d key] by auto

text \<open>Every returned index has each (port, clock) pair at most once as a key.\<close>

lemma store_portclocks_distinct:
  "distinct (map fst m) \<Longrightarrow> store_portclocks pcs device_name m = Inr m'
     \<Longrightarrow> distinct (map fst m')"
proof (induction pcs arbitrary: m)
  case Nil
  then show ?case by simp
next
  case (Cons portclock pcs)
  from Cons.prems(2) have
    "store_portclocks pcs device_name (AList.update portclock device_name m) = Inr m'"
    by (simp split: if_splits)
  moreover from Cons.prems(1) have
    "distinct (map fst (AList.update portclock device_name m))"
    by (rule distinct_update)
  ultimately show ?case by (rule Cons.IH [rotated])
qed

lemma port_clock_to_device_loop_distinct:
  "distinct (map fst m) \<Longrightarrow> port_clock_to_device_loop mapping m = Inr m'
     \<Longrightarrow> distinct (map fst m')"
proof (induction mapping arbitrary: m)
  case Nil
  then show ?case by simp
next
  case (Cons entry mapping)
  obtain device_name device_info where e: "entry = (device_name, device_info)"
    by (cases entry)
  show ?case
  proof (cases device_info)
    case (JDict d)
    with Cons.prems e obtain pcs m1 where
      "store_portclocks pcs device_name m = Inr m1"
      "port_clock_to_device_loop mapping m1 = Inr m'"
      by (auto simp: bind_eq_Inr)
    with Cons.prems(1) Cons.IH show ?thesis
      by (blast dest: store_portclocks_distinct)
  qed (use Cons e in auto)
qed

lemma portclock_map_keys_distinct:
  "generate_port_clock_to_device_map mapping = Inr m \<Longrightarrow> distinct (map fst m)"
  unfolding generate_port_clock_to_device_map_def
  using port_clock_to_device_loop_distinct [of "[]" mapping m] by simp

text \<open>
  C1 at a mapping in which two sequencer slots of one device carry the same
  (port, clock) pair: the index is built without any error, the second slot
  overwriting the first.
\<close>

theorem duplicate_portclock_accepted:
  "generate_port_clock_to_device_map
     [(''backend'', JStr ''quantify.scheduler.backends.qblox_backend.hardware_compile''),
      (''qcm0'', JDict
         [(''name'', JStr ''qcm0''), (''type'', JStr ''Pulsar_QCM''),
          (''ref'', JStr ''int''),
          (''complex_output_0'', JDict
             [(''line_gain_db'', JNum 0),
              (''seq0'', JDict [(''port'', JStr ''q0:mw''), (''clock'', JStr ''q0.01''),
                                (''interm_freq'', JNum 50000000)])]),
          (''complex_output_1'', JDict
             [(''line_gain_db'', JNum 0),
              (''seq1'', JDict [(''port'', JStr ''q0:mw''), (''clock'', JStr ''q0.01''),
                                (''interm_freq'', JNum 50000000)])])])]
   = Inr [((JStr ''q0:mw'', JStr ''q0.01''), ''qcm0'')]"
  by (simp add: generate_port_clock_to_device_map_def find_all_port_clock_combinations_def
      contains_def getitem_def)

section \<open>Sequencer compilers of a pulsar (\<^verbatim>\<open>Pulsar_base._construct_sequencers\<close>)\<close>

text \<open>
  \<^verbatim>\<open>SequencerSettings\<close>; the field \<^verbatim>\<open>duration\<close> is named
  \<open>settings_duration\<close> here. \<^verbatim>\<open>modulation_freq\<close> holds whatever value the
  constructor is given (\<^verbatim>\<open>None\<close> is \<open>JNone\<close>).
\<close>

record SequencerSettings =
  nco_en :: bool
  sync_en :: bool
  modulation_freq :: json
  awg_offset_path_0 :: real
  awg_offset_path_1 :: real
  settings_duration :: int

datatype sequencer_type = QCM_sequencer | QRM_sequencer

text \<open>The class attribute \<^verbatim>\<open>AWG_OUTPUT_VOLT\<close> of the two sequencer classes.\<close>

fun AWG_OUTPUT_VOLT :: "sequencer_type \<Rightarrow> real" where
  "AWG_OUTPUT_VOLT QCM_sequencer = 5"
| "AWG_OUTPUT_VOLT QRM_sequencer = 1"

text \<open>
  A sequencer compiler (\<^verbatim>\<open>Pulsar_sequencer_base\<close>). The attributes \<^verbatim>\<open>port\<close> and
  \<^verbatim>\<open>clock\<close> are \<open>seq_port\<close> and \<open>seq_clock\<close>; \<^verbatim>\<open>parent\<close> is kept by name;
  \<^verbatim>\<open>mixer_corrections\<close> keeps the dict that \<^verbatim>\<open>MixerCorrections.from_dict\<close> reads.
\<close>

record sequencer =
  seq_type :: sequencer_type
  parent :: string
  seq_name :: string
  seq_port :: json
  seq_clock :: json
  pulses :: "OpInfo list"
  acquisitions :: "OpInfo list"
  settings :: SequencerSettings
  mixer_corrections :: "json option"

text \<open>\<^verbatim>\<open>Pulsar_sequencer_base.__init__(parent, name, portclock, modulation_freq)\<close>.\<close>

definition new_sequencer ::
  "sequencer_type \<Rightarrow> string \<Rightarrow> string \<Rightarrow> json \<times> json \<Rightarrow> json \<Rightarrow> sequencer" where
  "new_sequencer ty par nm portclock freq =
     \<lparr> seq_type = ty, parent = par, seq_name = nm,
       seq_port = fst portclock, seq_clock = snd portclock,
       pulses = [], acquisitions = [],
       settings = \<lparr> nco_en = False, sync_en = True, modulation_freq = freq,
                    awg_offset_path_0 = 0, awg_offset_path_1 = 0, settings_duration = 0 \<rparr>,
       mixer_corrections = None \<rparr>"
















section \<open>Waveform table and amplitude check (\<^verbatim>\<open>_generate_awg_dict\<close>)\<close>

text \<open>
  An entry \<^verbatim>\<open>{"data": [...], "index": n}\<close> of a waveform dict, and the dict itself,
  keyed by waveform name.
\<close>

record wf_entry =
  wf_data :: "real list"
  wf_index :: int

type_synonym wf_dict = "(string \<times> wf_entry) list"

definition generate_waveform_names_from_uuid :: "int \<Rightarrow> string \<times> string" where
  "generate_waveform_names_from_uuid u = (str_int u @ ''_I'', str_int u @ ''_Q'')"

text \<open>
  \<^verbatim>\<open>_generate_waveform_dict\<close>: the loop over
  \<^verbatim>\<open>enumerate(waveforms_complex.items())\<close>, with the running index \<open>idx\<close>.
\<close>

fun generate_waveform_dict_loop ::
  "int \<Rightarrow> (int \<times> complex list) list \<Rightarrow> wf_dict \<Rightarrow> wf_dict" where
  "generate_waveform_dict_loop idx [] wf_dict = wf_dict"
| "generate_waveform_dict_loop idx ((u, complex_data) # rest) wf_dict =
     (let (name_i, name_q) = generate_waveform_names_from_uuid u;
          wf_dict = AList.update name_i
                 \<lparr> wf_data = map Re complex_data, wf_index = 2 * idx \<rparr> wf_dict;
          wf_dict = AList.update name_q
                 \<lparr> wf_data = map Im complex_data, wf_index = 2 * idx + 1 \<rparr> wf_dict
      in generate_waveform_dict_loop (idx + 1) rest wf_dict)"

definition generate_waveform_dict :: "(int \<times> complex list) list \<Rightarrow> wf_dict" where
  "generate_waveform_dict waveforms_complex =
     generate_waveform_dict_loop 0 waveforms_complex []"

text \<open>
  \<^verbatim>\<open>_generate_awg_dict\<close>. The samples of a pulse and its two peak amplitudes come
  from \<^verbatim>\<open>_generate_waveform_data\<close>, \<^verbatim>\<open>_apply_corrections_to_waveform\<close> and
  \<^verbatim>\<open>normalize_waveform_data\<close> (numerical code on complex arrays, the last one not
  part of the sources at hand); their composition is the parameter \<open>normalized\<close>,
  which yields \<^verbatim>\<open>(raw_wf_data, amp_i, amp_q)\<close> for a pulse. The loop assigns
  \<^verbatim>\<open>pulse.pulse_settings\<close>, so the pulses are returned updated.
\<close>

fun generate_awg_dict_loop ::
  "(OpInfo \<Rightarrow> error + complex list \<times> real \<times> real) \<Rightarrow> real \<Rightarrow> OpInfo list
     \<Rightarrow> (int \<times> complex list) list \<Rightarrow> error + OpInfo list \<times> (int \<times> complex list) list" where
  "generate_awg_dict_loop normalized volt [] waveforms_complex = Inr ([], waveforms_complex)"
| "generate_awg_dict_loop normalized volt (pulse # rest) waveforms_complex =
     bind (normalized pulse) (\<lambda>(raw_wf_data, amp_i, amp_q).
       if \<bar>amp_i\<bar> > volt then Inl ValueError
       else if \<bar>amp_q\<bar> > volt then Inl ValueError
       else
         let pulse = pulse\<lparr> pulse_settings :=
                       Some \<lparr> awg_gain_0 = round_double (amp_i / volt),
                              awg_gain_1 = round_double (amp_q / volt),
                              awg_offset_0 = 0, awg_offset_1 = 0 \<rparr> \<rparr>;
             waveforms_complex =
               (if map_of waveforms_complex (uuid pulse) = None
                then AList.update (uuid pulse) raw_wf_data waveforms_complex
                else waveforms_complex)
         in bind (generate_awg_dict_loop normalized volt rest waveforms_complex)
              (\<lambda>(ps, wc). Inr (pulse # ps, wc)))"

definition generate_awg_dict ::
  "(sequencer \<Rightarrow> OpInfo \<Rightarrow> error + complex list \<times> real \<times> real) \<Rightarrow> sequencer
     \<Rightarrow> error + sequencer \<times> wf_dict" where
  "generate_awg_dict normalized self =
     bind (generate_awg_dict_loop (normalized self) (AWG_OUTPUT_VOLT (seq_type self))
             (pulses self) [])
       (\<lambda>(ps, wc). Inr (self\<lparr> pulses := ps \<rparr>, generate_waveform_dict wc))"



text \<open>
  C6 at a pulse of peak amplitude 3 V on the I axis, on a \<^verbatim>\<open>QCM_sequencer\<close>: no
  error is raised, since the threshold of that class is 5 (and that of
  \<^verbatim>\<open>QRM_sequencer\<close> is 1); the pulse gets the gain \<open>3 / 5\<close>, rounded to a
  float.
\<close>

theorem qcm_amplitude_above_2_5_accepted:
  "generate_awg_dict (\<lambda>self pulse. Inr ([1], 3, 0))
     ((new_sequencer QCM_sequencer ''qcm0'' ''seq0'' (JStr ''q0:mw'', JStr ''q0.01'') JNone)
        \<lparr> pulses := [\<lparr> uuid = 7, data = [(''duration'', JNum (1 / 10 ^ 9))], timing = 0,
                       pulse_settings = None \<rparr>] \<rparr>)
   = Inr ((new_sequencer QCM_sequencer ''qcm0'' ''seq0'' (JStr ''q0:mw'', JStr ''q0.01'') JNone)
            \<lparr> pulses := [\<lparr> uuid = 7, data = [(''duration'', JNum (1 / 10 ^ 9))], timing = 0,
                           pulse_settings = Some \<lparr> awg_gain_0 = round_double (3 / 5),
                                                   awg_gain_1 = 0,
                                                   awg_offset_0 = 0, awg_offset_1 = 0 \<rparr> \<rparr>] \<rparr>,
          [(''7_I'', \<lparr> wf_data = [1], wf_index = 0 \<rparr>),
           (''7_Q'', \<lparr> wf_data = [0], wf_index = 1 \<rparr>)])
   \<and> AWG_OUTPUT_VOLT QCM_sequencer = 5 \<and> AWG_OUTPUT_VOLT QRM_sequencer = 1"
proof -
  have s: "str_int 7 = ''7''" by (simp add: str_int_def str_nat.simps)
  show ?thesis
    by (simp add: generate_awg_dict_def new_sequencer_def generate_waveform_dict_def
        generate_waveform_names_from_uuid_def s)
qed

section \<open>The gain immediates of a pulse\<close>









section \<open>Emission of the program body (\<^verbatim>\<open>generate_qasm_program\<close>)\<close>

text \<open>
  \<^verbatim>\<open>to_pulsar_time\<close> converts seconds to nanoseconds,
  \<^verbatim>\<open>int(np.round(time * 1e9))\<close>, and checks the grid.
\<close>

definition to_pulsar_time :: "real \<Rightarrow> error + int" where
  "to_pulsar_time time =
     (let time_ns = np_round (round_double (time * 10 ^ 9)) in
      if time_ns mod GRID_TIME_ns \<noteq> 0 then Inl ValueError else Inr time_ns)"

definition wait_till_start_operation :: "OpInfo \<Rightarrow> qasm_program \<Rightarrow> error + qasm_program" where
  "wait_till_start_operation operation q =
     bind (to_pulsar_time (timing operation)) (\<lambda>start_time.
       let wait_time = start_time - elapsed_time q in
       if wait_time > 0 then auto_wait wait_time q
       else if wait_time < 0 then Inl ValueError
       else Inr q)"

definition wait_till_start_then_play ::
  "OpInfo \<Rightarrow> int \<Rightarrow> int \<Rightarrow> qasm_program \<Rightarrow> error + qasm_program" where
  "wait_till_start_then_play pulse idx0 idx1 q =
     bind (wait_till_start_operation pulse q) (\<lambda>q.
     bind (update_runtime_settings pulse q) (\<lambda>q.
     bind (emit PLAY [IntArg idx0, IntArg idx1, IntArg GRID_TIME_ns] None None q) (\<lambda>q.
       Inr (q\<lparr> elapsed_time := elapsed_time q + GRID_TIME_ns \<rparr>))))"

definition wait_till_start_then_acquire ::
  "OpInfo \<Rightarrow> int \<Rightarrow> int \<Rightarrow> qasm_program \<Rightarrow> error + qasm_program" where
  "wait_till_start_then_acquire acquisition idx0 idx1 q =
     bind (wait_till_start_operation acquisition q) (\<lambda>q.
     bind (emit ACQUIRE [IntArg idx0, IntArg idx1, IntArg GRID_TIME_ns] None None q) (\<lambda>q.
       Inr (q\<lparr> elapsed_time := elapsed_time q + GRID_TIME_ns \<rparr>)))"

text \<open>
  \<^verbatim>\<open>get_indices_from_wf_dict\<close>; subscripting \<^verbatim>\<open>None\<close> (no dict was passed) is
  a \<^verbatim>\<open>TypeError\<close>.
\<close>

definition get_indices_from_wf_dict :: "int \<Rightarrow> wf_dict option \<Rightarrow> error + int \<times> int" where
  "get_indices_from_wf_dict u wf_dict =
     (let (name_real, name_imag) = generate_waveform_names_from_uuid u in
      case wf_dict of
        None \<Rightarrow> Inl TypeError
      | Some d \<Rightarrow>
          (case map_of d name_real of
             None \<Rightarrow> Inl (KeyError (JStr name_real))
           | Some e0 \<Rightarrow>
               (case map_of d name_imag of
                  None \<Rightarrow> Inl (KeyError (JStr name_imag))
                | Some e1 \<Rightarrow> Inr (wf_index e0, wf_index e1))))"

text \<open>
  The context manager \<^verbatim>\<open>QASMProgram.loop\<close>: what runs on entry
  (\<^verbatim>\<open>gen_start\<close>) and what runs on exit.
\<close>

definition loop_enter :: "string \<Rightarrow> string \<Rightarrow> int \<Rightarrow> qasm_program \<Rightarrow> error + qasm_program" where
  "loop_enter register label repetitions q =
     bind (emit MOVE [IntArg repetitions, StrArg register] None
             (Some (''iterator for loop with label '' @ label)) q)
       (emit NEW_LINE [] (Some label) None)"

definition loop_exit :: "string \<Rightarrow> string \<Rightarrow> qasm_program \<Rightarrow> error + qasm_program" where
  "loop_exit register label q = emit LOOP [StrArg register, StrArg (''@'' @ label)] None None q"

text \<open>The body of the \<^verbatim>\<open>while\<close> loop over the queue of operations, and the loop.\<close>

definition emit_operation ::
  "wf_dict option \<Rightarrow> wf_dict option \<Rightarrow> OpInfo \<Rightarrow> qasm_program \<Rightarrow> error + qasm_program" where
  "emit_operation awg_dict acq_dict operation q =
     (if is_acquisition operation
      then bind (get_indices_from_wf_dict (uuid operation) acq_dict)
             (\<lambda>(idx0, idx1). wait_till_start_then_acquire operation idx0 idx1 q)
      else bind (get_indices_from_wf_dict (uuid operation) awg_dict)
             (\<lambda>(idx0, idx1). wait_till_start_then_play operation idx0 idx1 q))"

fun emit_operations ::
  "wf_dict option \<Rightarrow> wf_dict option \<Rightarrow> OpInfo list \<Rightarrow> qasm_program \<Rightarrow> error + qasm_program" where
  "emit_operations awg_dict acq_dict [] q = Inr q"
| "emit_operations awg_dict acq_dict (operation # op_queue) q =
     bind (emit_operation awg_dict acq_dict operation q)
       (emit_operations awg_dict acq_dict op_queue)"

text \<open>
  \<^verbatim>\<open>op_list = sorted(pulses + acquisitions, key=lambda p: (p.timing, p.is_acquisition))\<close>.
  Python's \<^verbatim>\<open>sorted\<close> is stable, as is \<open>sort_key\<close>; tuples compare
  lexicographically and \<^verbatim>\<open>False < True\<close>.
\<close>

definition op_key :: "OpInfo \<Rightarrow> real \<times> bool" where
  "op_key p = (timing p, is_acquisition p)"

definition sorted_op_list :: "OpInfo list option \<Rightarrow> OpInfo list option \<Rightarrow> OpInfo list" where
  "sorted_op_list pulse_list acq_list =
     (let pulse_list = (case pulse_list of None \<Rightarrow> [] | Some ps \<Rightarrow> ps);
          acq_list = (case acq_list of None \<Rightarrow> [] | Some acqs \<Rightarrow> acqs);
          op_list = pulse_list @ acq_list
      in sort_key op_key op_list)"

text \<open>
  \<^verbatim>\<open>generate_qasm_program\<close> (the arguments \<^verbatim>\<open>pulses\<close> and \<^verbatim>\<open>acquisitions\<close> are
  \<open>pulse_list\<close> and \<open>acq_list\<close>). The result is the program before it is rendered as
  text by \<^verbatim>\<open>str(qasm)\<close>.
\<close>

definition generate_qasm_program ::
  "real \<Rightarrow> OpInfo list option \<Rightarrow> wf_dict option \<Rightarrow> OpInfo list option \<Rightarrow> wf_dict option
     \<Rightarrow> int \<Rightarrow> error + qasm_program" where
  "generate_qasm_program total_sequence_time pulse_list awg_dict acq_list acq_dict repetitions =
     (let loop_label = ''start''; loop_register = ''R0''; qasm = QASMProgram in
      bind (emit WAIT_SYNC [IntArg GRID_TIME_ns] None None qasm) (\<lambda>qasm.
      bind (emit SET_MARKER [IntArg 1] None None qasm) (\<lambda>qasm.
      let op_list = sorted_op_list pulse_list acq_list in
      bind (loop_enter loop_register loop_label repetitions qasm) (\<lambda>qasm.
      bind (emit_operations awg_dict acq_dict op_list qasm) (\<lambda>qasm.
      bind (to_pulsar_time total_sequence_time) (\<lambda>end_time.
      let wait_time = end_time - elapsed_time qasm in
      if wait_time \<le> 0 then Inl RuntimeError
      else
        bind (auto_wait wait_time qasm) (\<lambda>qasm.
        bind (loop_exit loop_register loop_label qasm) (\<lambda>qasm.
        bind (emit SET_MARKER [IntArg 0] None None qasm) (\<lambda>qasm.
        bind (emit UPDATE_PARAMETERS [IntArg GRID_TIME_ns] None None qasm) (\<lambda>qasm.
          emit STOP [] None None qasm))))))))))"

section \<open>Properties of the emitted program\<close>

text \<open>
  Auxiliary notions used to state the properties: the rows that play or acquire, the
  rows of an expanded wait, the row that an operation contributes, and the alignment
  invariant of a program under construction.
\<close>

definition is_play_or_acquire :: "row \<Rightarrow> bool" where
  "is_play_or_acquire r = (instruction r = PLAY \<or> instruction r = ACQUIRE)"

definition wait_row :: "int \<Rightarrow> string \<Rightarrow> row" where
  "wait_row w c = \<lparr> label_str = '''', instruction = WAIT, instr_args = [IntArg w],
                    comment_str = c \<rparr>"

definition wait_rows :: "int \<Rightarrow> row list" where
  "wait_rows W =
     (if W \<le> 65535 then [wait_row W '''']
      else replicate (nat (W div 65535)) (wait_row 65535 ''# auto generated wait'')
           @ (if W mod 65535 \<noteq> 0 then [wait_row (W mod 65535) ''''] else []))"

lemma auto_wait_eq:
  assumes "0 < W"
  shows "auto_wait W q =
           Inr (q\<lparr> instructions := instructions q @ wait_rows W,
                  elapsed_time := elapsed_time q + W \<rparr>)"
proof -
  have sz: "IMMEDIATE_SZ = 65535" by (simp add: IMMEDIATE_SZ_def)
  show ?thesis
  proof (cases "W \<le> 65535")
    case True
    with assms show ?thesis
      unfolding auto_wait_def sz Let_def by (simp add: emit_short wait_rows_def wait_row_def)
  next
    case False
    have "0 \<le> W mod 65535" by simp
    then have m: "(0 < W mod 65535) = (W mod 65535 \<noteq> 0)" by linarith
    from False assms show ?thesis
      unfolding auto_wait_def sz Let_def
      by (simp add: emit_short emit_times_short m wait_rows_def wait_row_def)
  qed
qed

lemma wait_rows_operands:
  assumes "0 < W" and "r \<in> set (wait_rows W)"
  shows "instruction r = WAIT
     \<and> (\<exists>w. instr_args r = [IntArg w] \<and> 0 < w \<and> w \<le> 65535 \<and> (W \<le> 65535 \<longrightarrow> w = W))"
proof (cases "W \<le> 65535")
  case True
  with assms show ?thesis by (simp add: wait_rows_def wait_row_def)
next
  case False
  have "0 \<le> W mod 65535" "W mod 65535 < 65535" by simp_all
  with False assms show ?thesis
    by (auto simp: wait_rows_def wait_row_def split: if_splits)
qed

lemma to_pulsar_time_grid:
  "to_pulsar_time t = Inr n \<Longrightarrow> 4 dvd n"
  by (auto simp: to_pulsar_time_def GRID_TIME_ns_def Let_def split: if_splits)

lemma wait_till_start_operation_Inr:
  assumes "wait_till_start_operation operation q = Inr q'"
  shows "\<exists>t. to_pulsar_time (timing operation) = Inr t \<and> elapsed_time q \<le> t
    \<and> q' = q\<lparr> instructions := instructions q
                    @ (if t = elapsed_time q then [] else wait_rows (t - elapsed_time q)),
               elapsed_time := t \<rparr>"
proof -
  from assms obtain t where t: "to_pulsar_time (timing operation) = Inr t"
    and r: "(let wait_time = t - elapsed_time q in
       if wait_time > 0 then auto_wait wait_time q
       else if wait_time < 0 then Inl ValueError
       else Inr q) = Inr q'"
    by (auto simp: wait_till_start_operation_def bind_eq_Inr)
  show ?thesis
  proof (cases "t - elapsed_time q > 0")
    case True
    with r have "auto_wait (t - elapsed_time q) q = Inr q'" by (simp add: Let_def)
    with True t show ?thesis by (auto simp: auto_wait_eq)
  next
    case False
    with r have "t = elapsed_time q" "q' = q" by (auto simp: Let_def split: if_splits)
    with t show ?thesis by simp
  qed
qed

definition play_or_acquire_row :: "wf_dict option \<Rightarrow> wf_dict option \<Rightarrow> OpInfo \<Rightarrow> error + row" where
  "play_or_acquire_row awg_dict acq_dict operation =
     bind (get_indices_from_wf_dict (uuid operation)
             (if is_acquisition operation then acq_dict else awg_dict))
       (\<lambda>(idx0, idx1).
          get_instruction_as_list (if is_acquisition operation then ACQUIRE else PLAY)
            [IntArg idx0, IntArg idx1, IntArg GRID_TIME_ns] None None)"

definition start_waits :: "int \<Rightarrow> int \<Rightarrow> row list" where
  "start_waits t elapsed = (if t = elapsed then [] else wait_rows (t - elapsed))"

lemma update_runtime_settings_Inr:
  assumes "update_runtime_settings operation q = Inr q'"
  shows "\<exists>g. instruction g = SET_AWG_GAIN \<and> q' = q\<lparr> instructions := instructions q @ [g] \<rparr>"
proof -
  from assms obtain s g0 g1 where
    "emit SET_AWG_GAIN [IntArg g0, IntArg g1] None
       (Some (''setting gain for '' @ str_int (uuid operation))) q = Inr q'"
    by (auto simp: update_runtime_settings_def bind_eq_Inr split: option.splits)
  then have "q' = q\<lparr> instructions := instructions q @
      [\<lparr> label_str = '''', instruction = SET_AWG_GAIN, instr_args = [IntArg g0, IntArg g1],
         comment_str = ''# '' @ ''setting gain for '' @ str_int (uuid operation) \<rparr>] \<rparr>"
    by (simp add: emit_short)
  then show ?thesis
    by (intro exI [of _ "\<lparr> label_str = '''', instruction = SET_AWG_GAIN,
         instr_args = [IntArg g0, IntArg g1],
         comment_str = ''# '' @ ''setting gain for '' @ str_int (uuid operation) \<rparr>"]) simp
qed

lemma emit_operation_Inr:
  assumes "emit_operation awg_dict acq_dict operation q = Inr q'"
  shows "\<exists>t gains r. to_pulsar_time (timing operation) = Inr t \<and> elapsed_time q \<le> t
    \<and> play_or_acquire_row awg_dict acq_dict operation = Inr r
    \<and> (\<forall>g \<in> set gains. instruction g = SET_AWG_GAIN)
    \<and> q' = \<lparr> instructions = instructions q @ start_waits t (elapsed_time q) @ gains @ [r],
             elapsed_time = t + 4 \<rparr>"
proof (cases "is_acquisition operation")
  case True
  with assms obtain i0 i1 where
    idx: "get_indices_from_wf_dict (uuid operation) acq_dict = Inr (i0, i1)"
    and w: "wait_till_start_then_acquire operation i0 i1 q = Inr q'"
    by (auto simp: emit_operation_def bind_eq_Inr)
  from w obtain q1 where w1: "wait_till_start_operation operation q = Inr q1"
    and q': "q' = \<lparr> instructions = instructions q1 @
                 [\<lparr> label_str = '''', instruction = ACQUIRE,
                    instr_args = [IntArg i0, IntArg i1, IntArg 4], comment_str = '''' \<rparr>],
               elapsed_time = elapsed_time q1 + 4 \<rparr>"
    by (auto simp: wait_till_start_then_acquire_def bind_eq_Inr emit_short GRID_TIME_ns_def)
  from wait_till_start_operation_Inr [OF w1] obtain t where
    t: "to_pulsar_time (timing operation) = Inr t" "elapsed_time q \<le> t"
    and q1: "q1 = q\<lparr> instructions := instructions q @ start_waits t (elapsed_time q),
                    elapsed_time := t \<rparr>"
    by (auto simp: start_waits_def)
  have "play_or_acquire_row awg_dict acq_dict operation =
      Inr \<lparr> label_str = '''', instruction = ACQUIRE,
            instr_args = [IntArg i0, IntArg i1, IntArg 4], comment_str = '''' \<rparr>"
    using True idx
    by (simp add: play_or_acquire_row_def get_instruction_as_list_def GRID_TIME_ns_def)
  with t q1 q' show ?thesis
    by (intro exI [of _ t] exI [of _ "[]"]) simp
next
  case False
  with assms obtain i0 i1 where
    idx: "get_indices_from_wf_dict (uuid operation) awg_dict = Inr (i0, i1)"
    and w: "wait_till_start_then_play operation i0 i1 q = Inr q'"
    by (auto simp: emit_operation_def bind_eq_Inr)
  from w obtain q1 q2 where w1: "wait_till_start_operation operation q = Inr q1"
    and u: "update_runtime_settings operation q1 = Inr q2"
    and q': "q' = \<lparr> instructions = instructions q2 @
                 [\<lparr> label_str = '''', instruction = PLAY,
                    instr_args = [IntArg i0, IntArg i1, IntArg 4], comment_str = '''' \<rparr>],
               elapsed_time = elapsed_time q2 + 4 \<rparr>"
    by (auto simp: wait_till_start_then_play_def bind_eq_Inr emit_short GRID_TIME_ns_def)
  from wait_till_start_operation_Inr [OF w1] obtain t where
    t: "to_pulsar_time (timing operation) = Inr t" "elapsed_time q \<le> t"
    and q1: "q1 = q\<lparr> instructions := instructions q @ start_waits t (elapsed_time q),
                    elapsed_time := t \<rparr>"
    by (auto simp: start_waits_def)
  from update_runtime_settings_Inr [OF u] obtain g where
    g: "instruction g = SET_AWG_GAIN" and q2: "q2 = q1\<lparr> instructions := instructions q1 @ [g] \<rparr>"
    by blast
  have "play_or_acquire_row awg_dict acq_dict operation =
      Inr \<lparr> label_str = '''', instruction = PLAY,
            instr_args = [IntArg i0, IntArg i1, IntArg 4], comment_str = '''' \<rparr>"
    using False idx
    by (simp add: play_or_acquire_row_def get_instruction_as_list_def GRID_TIME_ns_def)
  with t q1 q2 q' g show ?thesis
    by (intro exI [of _ t] exI [of _ "[g]"]) simp
qed

lemma bind_assoc: "bind (bind m f) g = bind m (\<lambda>x. bind (f x) g)"
  by (cases m) simp_all

lemma emit_operations_append:
  "emit_operations awg_dict acq_dict (xs @ ys) q =
     bind (emit_operations awg_dict acq_dict xs q) (emit_operations awg_dict acq_dict ys)"
proof (induction xs arbitrary: q)
  case Nil
  then show ?case by simp
next
  case (Cons a xs)
  then show ?case
    by (cases "emit_operation awg_dict acq_dict a q") simp_all
qed

lemma play_or_acquire_row_Inr:
  assumes "play_or_acquire_row awg_dict acq_dict operation = Inr r"
  shows "is_play_or_acquire r \<and> instruction r \<noteq> WAIT
     \<and> (\<exists>i0 i1. instr_args r = [IntArg i0, IntArg i1, IntArg 4])"
  using assms
  by (auto simp: play_or_acquire_row_def bind_eq_Inr get_instruction_as_list_def
      is_play_or_acquire_def GRID_TIME_ns_def split: if_splits)

lemma start_waits_rows:
  assumes "e \<le> t" and "r \<in> set (start_waits t e)"
  shows "instruction r = WAIT
     \<and> (\<exists>w. instr_args r = [IntArg w] \<and> 0 < w \<and> w \<le> 65535 \<and> (t - e \<le> 65535 \<longrightarrow> w = t - e))"
proof -
  from assms have "0 < t - e" and "r \<in> set (wait_rows (t - e))"
    by (auto simp: start_waits_def split: if_splits)
  then show ?thesis by (rule wait_rows_operands)
qed

lemma filter_start_waits [simp]:
  assumes "e \<le> t"
  shows "filter is_play_or_acquire (start_waits t e) = []"
proof -
  have "\<forall>r \<in> set (start_waits t e). \<not> is_play_or_acquire r"
  proof
    fix r
    assume "r \<in> set (start_waits t e)"
    from start_waits_rows [OF assms this] have "instruction r = WAIT" by blast
    then show "\<not> is_play_or_acquire r" by (simp add: is_play_or_acquire_def)
  qed
  then show ?thesis by (simp add: filter_empty_conv)
qed

lemma emit_operation_filter:
  assumes "emit_operation awg_dict acq_dict operation q = Inr q'"
  shows "map Inr (filter is_play_or_acquire (instructions q')) =
         map Inr (filter is_play_or_acquire (instructions q))
           @ [play_or_acquire_row awg_dict acq_dict operation]"
proof -
  from emit_operation_Inr [OF assms] obtain t gains r where
    le: "elapsed_time q \<le> t"
    and r: "play_or_acquire_row awg_dict acq_dict operation = Inr r"
    and g: "\<forall>g \<in> set gains. instruction g = SET_AWG_GAIN"
    and q': "q' = \<lparr> instructions = instructions q @ start_waits t (elapsed_time q) @ gains @ [r],
                    elapsed_time = t + 4 \<rparr>"
    by blast
  from g have "filter is_play_or_acquire gains = []"
    by (auto simp: filter_empty_conv is_play_or_acquire_def)
  moreover from play_or_acquire_row_Inr [OF r] have "is_play_or_acquire r" by simp
  ultimately show ?thesis using le r q' by simp
qed

lemma emit_operations_filter:
  "emit_operations awg_dict acq_dict ops q = Inr q' \<Longrightarrow>
   map Inr (filter is_play_or_acquire (instructions q')) =
     map Inr (filter is_play_or_acquire (instructions q))
       @ map (play_or_acquire_row awg_dict acq_dict) ops"
proof (induction ops arbitrary: q)
  case Nil
  then show ?case by simp
next
  case (Cons operation ops)
  from Cons.prems obtain q1 where
    a: "emit_operation awg_dict acq_dict operation q = Inr q1"
    and b: "emit_operations awg_dict acq_dict ops q1 = Inr q'"
    by (auto simp: bind_eq_Inr)
  from Cons.IH [OF b] emit_operation_filter [OF a] show ?case by simp
qed

text \<open>
  The row \<^verbatim>\<open>wait 65535 # auto generated wait\<close> that \<^verbatim>\<open>auto_wait\<close> emits for each
  full chunk of a wait longer than 65535 ns.
\<close>

definition chunk_row :: row where
  "chunk_row = wait_row 65535 ''# auto generated wait''"

text \<open>
  The wait rows of a list of rows are on the grid when the operand of each is a
  multiple of 4, unless the row is a chunk row or comes directly after one (the
  remainder of a split wait). The flag tells whether the row before the list is a
  chunk row.
\<close>

fun waits_on_grid :: "bool \<Rightarrow> row list \<Rightarrow> bool" where
  "waits_on_grid after_chunk [] = True"
| "waits_on_grid after_chunk (r # rs) =
     ((instruction r = WAIT \<longrightarrow>
         (\<exists>w. instr_args r = [IntArg w] \<and> (4 dvd w \<or> r = chunk_row \<or> after_chunk)))
      \<and> waits_on_grid (r = chunk_row) rs)"

lemma waits_on_grid_weaken: "waits_on_grid False rs \<Longrightarrow> waits_on_grid b rs"
  by (cases rs) auto

lemma waits_on_grid_append:
  "waits_on_grid b xs \<Longrightarrow> waits_on_grid False ys \<Longrightarrow> waits_on_grid b (xs @ ys)"
proof (induction xs arbitrary: b)
  case Nil
  then show ?case by (simp add: waits_on_grid_weaken)
next
  case (Cons r xs)
  then show ?case by simp
qed

lemma waits_on_grid_no_wait:
  "\<forall>r \<in> set rs. instruction r \<noteq> WAIT \<Longrightarrow> waits_on_grid b rs"
  by (induction rs arbitrary: b) simp_all

lemma waits_on_grid_chunks:
  "waits_on_grid True rest \<Longrightarrow> waits_on_grid b (replicate (Suc n) chunk_row @ rest)"
proof (induction n arbitrary: b)
  case 0
  then show ?case by (simp add: chunk_row_def wait_row_def)
next
  case (Suc n)
  from Suc.IH [OF Suc.prems, of True] show ?case
    by (simp add: chunk_row_def wait_row_def)
qed

lemma waits_on_grid_wait_rows:
  assumes "0 < W" and "4 dvd W"
  shows "waits_on_grid False (wait_rows W)"
proof (cases "W \<le> 65535")
  case True
  with assms show ?thesis by (simp add: wait_rows_def wait_row_def)
next
  case False
  then have "0 < W div 65535" by (simp add: pos_imp_zdiv_pos_iff)
  then obtain n where n: "nat (W div 65535) = Suc n"
    by (cases "nat (W div 65535)") simp_all
  have "waits_on_grid True (if W mod 65535 \<noteq> 0 then [wait_row (W mod 65535) ''''] else [])"
    by (simp add: wait_row_def)
  from waits_on_grid_chunks [OF this, of False n] False show ?thesis
    by (simp add: wait_rows_def n chunk_row_def)
qed

lemma waits_on_grid_nth:
  "waits_on_grid b rs \<Longrightarrow> i < length rs \<Longrightarrow> instruction (rs ! i) = WAIT \<Longrightarrow>
   \<exists>w. instr_args (rs ! i) = [IntArg w]
      \<and> (4 dvd w \<or> rs ! i = chunk_row \<or> (if i = 0 then b else rs ! (i - 1) = chunk_row))"
proof (induction rs arbitrary: b i)
  case Nil
  then show ?case by simp
next
  case (Cons r rs)
  show ?case
  proof (cases i)
    case 0
    with Cons.prems show ?thesis by auto
  next
    case (Suc k)
    with Cons.prems have "waits_on_grid (r = chunk_row) rs" "k < length rs"
      "instruction (rs ! k) = WAIT" by simp_all
    from Cons.IH [OF this] obtain w where
      w: "instr_args (rs ! k) = [IntArg w]"
      "4 dvd w \<or> rs ! k = chunk_row \<or> (if k = 0 then r = chunk_row else rs ! (k - 1) = chunk_row)"
      by blast
    show ?thesis
    proof (cases k)
      case 0
      with w Suc show ?thesis by auto
    next
      case (Suc m)
      with w \<open>i = Suc k\<close> show ?thesis by auto
    qed
  qed
qed

definition aligned :: "qasm_program \<Rightarrow> bool" where
  "aligned q \<longleftrightarrow>
     0 \<le> elapsed_time q \<and> 4 dvd elapsed_time q
     \<and> (\<forall>r \<in> set (instructions q).
          is_play_or_acquire r \<longrightarrow> (\<exists>i0 i1. instr_args r = [IntArg i0, IntArg i1, IntArg 4]))
     \<and> waits_on_grid False (instructions q)"

lemma start_waits_on_grid:
  assumes "e \<le> t" and "4 dvd e" and "4 dvd t"
  shows "waits_on_grid False (start_waits t e)"
proof (cases "t = e")
  case True
  then show ?thesis by (simp add: start_waits_def)
next
  case False
  with assms(1) have "0 < t - e" by simp
  moreover from assms(2,3) have "4 dvd t - e" by (simp add: dvd_diff)
  ultimately have "waits_on_grid False (wait_rows (t - e))" by (rule waits_on_grid_wait_rows)
  with False show ?thesis by (simp add: start_waits_def)
qed

lemma aligned_extend:
  assumes "aligned q" and "elapsed_time q \<le> t" and "4 dvd t" and "t \<le> t'" and "4 dvd t'"
    and "\<forall>r \<in> set others. \<not> is_play_or_acquire r \<and> instruction r \<noteq> WAIT"
    and "\<forall>r \<in> set plays. instruction r \<noteq> WAIT
           \<and> (\<exists>i0 i1. instr_args r = [IntArg i0, IntArg i1, IntArg 4])"
  shows "aligned \<lparr> instructions = instructions q @ start_waits t (elapsed_time q) @ others @ plays,
                   elapsed_time = t' \<rparr>"
proof -
  from assms(1) have e: "0 \<le> elapsed_time q" "4 dvd elapsed_time q"
    and old_plays: "\<forall>r \<in> set (instructions q).
          is_play_or_acquire r \<longrightarrow> (\<exists>i0 i1. instr_args r = [IntArg i0, IntArg i1, IntArg 4])"
    and old_waits: "waits_on_grid False (instructions q)"
    by (simp_all add: aligned_def)
  have sw: "waits_on_grid False (start_waits t (elapsed_time q))"
    using assms(2) e(2) assms(3) by (rule start_waits_on_grid)
  from assms(6,7) have "\<forall>r \<in> set (others @ plays). instruction r \<noteq> WAIT" by auto
  then have "waits_on_grid False (others @ plays)" by (rule waits_on_grid_no_wait)
  with sw have "waits_on_grid False (start_waits t (elapsed_time q) @ others @ plays)"
    by (rule waits_on_grid_append)
  with old_waits have w: "waits_on_grid False
      (instructions q @ start_waits t (elapsed_time q) @ others @ plays)"
    by (rule waits_on_grid_append)
  have p: "is_play_or_acquire r \<longrightarrow> (\<exists>i0 i1. instr_args r = [IntArg i0, IntArg i1, IntArg 4])"
    if "r \<in> set (instructions q @ start_waits t (elapsed_time q) @ others @ plays)" for r
  proof -
    from that consider (old) "r \<in> set (instructions q)"
      | (wait) "r \<in> set (start_waits t (elapsed_time q))"
      | (other) "r \<in> set others" | (play) "r \<in> set plays"
      by auto
    then show ?thesis
    proof cases
      case old
      with old_plays show ?thesis by simp
    next
      case wait
      from start_waits_rows [OF assms(2) wait] show ?thesis
        by (simp add: is_play_or_acquire_def)
    next
      case other
      with assms(6) show ?thesis by simp
    next
      case play
      with assms(7) show ?thesis by simp
    qed
  qed
  from e assms(2,4) have "0 \<le> t'" by simp
  with assms(5) w p show ?thesis by (simp add: aligned_def)
qed

lemma emit_operation_aligned:
  assumes "aligned q" and "emit_operation awg_dict acq_dict operation q = Inr q'"
  shows "aligned q' \<and> elapsed_time q \<le> elapsed_time q'"
proof -
  from emit_operation_Inr [OF assms(2)] obtain t gains r where
    t: "to_pulsar_time (timing operation) = Inr t" and le: "elapsed_time q \<le> t"
    and r: "play_or_acquire_row awg_dict acq_dict operation = Inr r"
    and g: "\<forall>g \<in> set gains. instruction g = SET_AWG_GAIN"
    and q': "q' = \<lparr> instructions = instructions q @ start_waits t (elapsed_time q) @ gains @ [r],
                    elapsed_time = t + 4 \<rparr>"
    by blast
  from t have d: "4 dvd t" by (rule to_pulsar_time_grid)
  from g have g': "\<forall>r \<in> set gains. \<not> is_play_or_acquire r \<and> instruction r \<noteq> WAIT"
    by (simp add: is_play_or_acquire_def)
  from play_or_acquire_row_Inr [OF r]
  have r': "\<forall>x \<in> set [r]. instruction x \<noteq> WAIT
           \<and> (\<exists>i0 i1. instr_args x = [IntArg i0, IntArg i1, IntArg 4])"
    by simp
  have "aligned \<lparr> instructions = instructions q @ start_waits t (elapsed_time q) @ gains @ [r],
                  elapsed_time = t + 4 \<rparr>"
    using assms(1) le d _ _ g' r' by (rule aligned_extend) (use d in simp_all)
  with q' le show ?thesis by simp
qed

lemma emit_operations_aligned:
  "aligned q \<Longrightarrow> emit_operations awg_dict acq_dict ops q = Inr q'
     \<Longrightarrow> aligned q' \<and> elapsed_time q \<le> elapsed_time q'"
proof (induction ops arbitrary: q)
  case Nil
  then show ?case by simp
next
  case (Cons operation ops)
  from Cons.prems(2) obtain q1 where
    a: "emit_operation awg_dict acq_dict operation q = Inr q1"
    and b: "emit_operations awg_dict acq_dict ops q1 = Inr q'"
    by (auto simp: bind_eq_Inr)
  from emit_operation_aligned [OF Cons.prems(1) a]
  have "aligned q1" "elapsed_time q \<le> elapsed_time q1" by simp_all
  with Cons.IH [OF _ b] show ?case by fastforce
qed

lemma wait_rows_short: "W \<le> 65535 \<Longrightarrow> wait_rows W = [wait_row W '''']"
  by (simp add: wait_rows_def)

lemma emit_operation_wait_state:
  assumes "emit_operation awg_dict acq_dict operation q = Inr q'"
  shows "\<exists>q1. wait_till_start_operation operation q = Inr q1 \<and> 4 dvd elapsed_time q1
           \<and> elapsed_time q \<le> elapsed_time q1
           \<and> elapsed_time q' = elapsed_time q1 + 4
           \<and> (elapsed_time q1 - elapsed_time q \<le> 65535 \<longrightarrow>
                instructions q1 = instructions q @
                  (if elapsed_time q1 = elapsed_time q then []
                   else [wait_row (elapsed_time q1 - elapsed_time q) '''']))"
proof -
  from assms obtain q1 where w: "wait_till_start_operation operation q = Inr q1"
    by (auto simp: emit_operation_def wait_till_start_then_play_def
        wait_till_start_then_acquire_def bind_eq_Inr split: if_splits)
  from wait_till_start_operation_Inr [OF w] obtain t where
    t: "to_pulsar_time (timing operation) = Inr t" and le: "elapsed_time q \<le> t"
    and q1: "q1 = q\<lparr> instructions := instructions q
                    @ (if t = elapsed_time q then [] else wait_rows (t - elapsed_time q)),
               elapsed_time := t \<rparr>"
    by blast
  from q1 have e1: "elapsed_time q1 = t" by simp
  from emit_operation_Inr [OF assms] t have "elapsed_time q' = t + 4" by auto
  moreover from q1 have "elapsed_time q1 - elapsed_time q \<le> 65535 \<longrightarrow>
                instructions q1 = instructions q @
                  (if elapsed_time q1 = elapsed_time q then []
                   else [wait_row (elapsed_time q1 - elapsed_time q) ''''])"
    by (simp add: wait_rows_short)
  ultimately show ?thesis using w e1 le to_pulsar_time_grid [OF t] by simp
qed

text \<open>
  The program when the loop over the operations starts, and the rows emitted after the
  trailing wait.
\<close>

definition body_start :: "int \<Rightarrow> qasm_program" where
  "body_start repetitions =
     \<lparr> instructions =
         [\<lparr> label_str = '''', instruction = WAIT_SYNC, instr_args = [IntArg 4],
            comment_str = '''' \<rparr>,
          \<lparr> label_str = '''', instruction = SET_MARKER, instr_args = [IntArg 1],
            comment_str = '''' \<rparr>,
          \<lparr> label_str = '''', instruction = MOVE,
            instr_args = [IntArg repetitions, StrArg ''R0''],
            comment_str = ''# iterator for loop with label start'' \<rparr>,
          \<lparr> label_str = ''start:'', instruction = NEW_LINE, instr_args = [],
            comment_str = '''' \<rparr>],
       elapsed_time = 0 \<rparr>"

definition footer_rows :: "row list" where
  "footer_rows =
     [\<lparr> label_str = '''', instruction = LOOP, instr_args = [StrArg ''R0'', StrArg ''@start''],
        comment_str = '''' \<rparr>,
      \<lparr> label_str = '''', instruction = SET_MARKER, instr_args = [IntArg 0],
        comment_str = '''' \<rparr>,
      \<lparr> label_str = '''', instruction = UPDATE_PARAMETERS, instr_args = [IntArg 4],
        comment_str = '''' \<rparr>,
      \<lparr> label_str = '''', instruction = STOP, instr_args = [], comment_str = '''' \<rparr>]"

lemma generate_qasm_program_eq:
  "generate_qasm_program total_time pulse_list awg_dict acq_list acq_dict repetitions =
     bind (emit_operations awg_dict acq_dict (sorted_op_list pulse_list acq_list)
             (body_start repetitions)) (\<lambda>qasm.
     bind (to_pulsar_time total_time) (\<lambda>end_time.
       if end_time - elapsed_time qasm \<le> 0 then Inl RuntimeError
       else Inr \<lparr> instructions = instructions qasm
                      @ wait_rows (end_time - elapsed_time qasm) @ footer_rows,
                  elapsed_time = end_time \<rparr>))"
proof -
  have tail: "(if W \<le> 0 then Inl RuntimeError
       else bind (auto_wait W qasm) (\<lambda>qasm.
            bind (loop_exit ''R0'' ''start'' qasm) (\<lambda>qasm.
            bind (emit SET_MARKER [IntArg 0] None None qasm) (\<lambda>qasm.
            bind (emit UPDATE_PARAMETERS [IntArg GRID_TIME_ns] None None qasm) (\<lambda>qasm.
              emit STOP [] None None qasm)))))
     = (if W \<le> 0 then Inl RuntimeError
        else Inr \<lparr> instructions = instructions qasm @ wait_rows W @ footer_rows,
                   elapsed_time = elapsed_time qasm + W \<rparr>)" for W qasm
  proof (cases "W \<le> 0")
    case True
    then show ?thesis by simp
  next
    case False
    then have "0 < W" by simp
    then show ?thesis
      by (simp add: auto_wait_eq loop_exit_def emit_short footer_rows_def GRID_TIME_ns_def)
  qed
  have head: "bind (emit WAIT_SYNC [IntArg GRID_TIME_ns] None None QASMProgram) (\<lambda>qasm.
      bind (emit SET_MARKER [IntArg 1] None None qasm) (\<lambda>qasm.
      bind (loop_enter ''R0'' ''start'' repetitions qasm) F)) = F (body_start repetitions)" for F
    by (simp add: emit_short loop_enter_def QASMProgram_def body_start_def GRID_TIME_ns_def)
  have alg: "a + (b - a) = b" for a b :: int by simp
  show ?thesis
    unfolding generate_qasm_program_def Let_def head tail
    by (simp add: alg cong: if_cong)
qed

lemma aligned_body_start: "aligned (body_start repetitions)"
  by (simp add: aligned_def body_start_def is_play_or_acquire_def)

lemma filter_body_start: "filter is_play_or_acquire (instructions (body_start repetitions)) = []"
  by (simp add: body_start_def is_play_or_acquire_def)

lemma filter_footer_rows: "filter is_play_or_acquire footer_rows = []"
  by (simp add: footer_rows_def is_play_or_acquire_def)

lemma filter_wait_rows:
  assumes "0 < W"
  shows "filter is_play_or_acquire (wait_rows W) = []"
proof -
  have "\<forall>r \<in> set (wait_rows W). \<not> is_play_or_acquire r"
  proof
    fix r
    assume "r \<in> set (wait_rows W)"
    from wait_rows_operands [OF assms this] have "instruction r = WAIT" by blast
    then show "\<not> is_play_or_acquire r" by (simp add: is_play_or_acquire_def)
  qed
  then show ?thesis by (simp add: filter_empty_conv)
qed

lemma generate_qasm_program_Inr:
  assumes "generate_qasm_program total_time pulse_list awg_dict acq_list acq_dict repetitions
             = Inr prog"
  shows "\<exists>q e. emit_operations awg_dict acq_dict (sorted_op_list pulse_list acq_list)
                  (body_start repetitions) = Inr q
            \<and> to_pulsar_time total_time = Inr e \<and> elapsed_time q < e
            \<and> prog = \<lparr> instructions = instructions q @ wait_rows (e - elapsed_time q)
                                       @ footer_rows,
                       elapsed_time = e \<rparr>"
  using assms unfolding generate_qasm_program_eq
  by (auto simp: bind_eq_Inr split: if_splits)

lemma sorted_op_list_props:
  "sorted (map op_key (sorted_op_list pulse_list acq_list))"
  "mset (sorted_op_list pulse_list acq_list) =
     mset ((case pulse_list of None \<Rightarrow> [] | Some ps \<Rightarrow> ps)
           @ (case acq_list of None \<Rightarrow> [] | Some acqs \<Rightarrow> acqs))"
  by (simp_all add: sorted_op_list_def)

lemma pulse_before_acquisition:
  assumes "sorted (map op_key ops)" and "i < length ops" and "j < length ops"
    and "timing (ops ! i) = timing (ops ! j)"
    and "\<not> is_acquisition (ops ! i)" and "is_acquisition (ops ! j)"
  shows "i < j"
proof (rule ccontr)
  assume "\<not> i < j"
  then have "j \<le> i" by simp
  moreover from assms(2) have "i < length (map op_key ops)" by simp
  ultimately have "map op_key ops ! j \<le> map op_key ops ! i"
    using assms(1) by (blast intro: sorted_nth_mono)
  with assms(2,3) have "op_key (ops ! j) \<le> op_key (ops ! i)" by simp
  with assms(4,5,6) show False by (simp add: op_key_def less_eq_prod_def)
qed

text \<open>
  \<open>starts_before a b\<close>: both start times are on the grid and \<open>b\<close> starts at least
  4 ns, the time of one \<^verbatim>\<open>play\<close> or \<^verbatim>\<open>acquire\<close>, after \<open>a\<close>.
\<close>

definition starts_before :: "OpInfo \<Rightarrow> OpInfo \<Rightarrow> bool" where
  "starts_before a b =
     (case to_pulsar_time (timing a) of
        Inl e \<Rightarrow> False
      | Inr ta \<Rightarrow> (case to_pulsar_time (timing b) of Inl e \<Rightarrow> False | Inr tb \<Rightarrow> ta + 4 \<le> tb))"

lemma emit_operations_start_times:
  "emit_operations awg_dict acq_dict ops q = Inr q' \<Longrightarrow>
   (\<forall>operation \<in> set ops. \<exists>t. to_pulsar_time (timing operation) = Inr t \<and> elapsed_time q \<le> t)
   \<and> sorted_wrt starts_before ops"
proof (induction ops arbitrary: q)
  case Nil
  then show ?case by simp
next
  case (Cons operation ops)
  from Cons.prems obtain q1 where
    a: "emit_operation awg_dict acq_dict operation q = Inr q1"
    and b: "emit_operations awg_dict acq_dict ops q1 = Inr q'"
    by (auto simp: bind_eq_Inr)
  from emit_operation_Inr [OF a] obtain t gains r where
    t: "to_pulsar_time (timing operation) = Inr t" "elapsed_time q \<le> t"
    and q1: "q1 = \<lparr> instructions = instructions q @ start_waits t (elapsed_time q) @ gains @ [r],
                    elapsed_time = t + 4 \<rparr>"
    by blast
  from q1 have e1: "elapsed_time q1 = t + 4" by simp
  from Cons.IH [OF b] have
    rest: "\<forall>x \<in> set ops. \<exists>tx. to_pulsar_time (timing x) = Inr tx \<and> elapsed_time q1 \<le> tx"
    and s: "sorted_wrt starts_before ops"
    by simp_all
  have "starts_before operation x
        \<and> (\<exists>tx. to_pulsar_time (timing x) = Inr tx \<and> elapsed_time q \<le> tx)"
    if "x \<in> set ops" for x
  proof -
    from rest that obtain tx where tx: "to_pulsar_time (timing x) = Inr tx" "elapsed_time q1 \<le> tx"
      by blast
    with t e1 have "starts_before operation x" by (simp add: starts_before_def)
    moreover from tx t e1 have "elapsed_time q \<le> tx" by simp
    ultimately show ?thesis using tx by simp
  qed
  then have "\<forall>x \<in> set ops. starts_before operation x"
    "\<forall>x \<in> set ops. \<exists>tx. to_pulsar_time (timing x) = Inr tx \<and> elapsed_time q \<le> tx"
    by blast+
  with s t show ?case by simp
qed

lemma starts_before_timing: "starts_before a b \<Longrightarrow> timing a \<noteq> timing b"
  by (auto simp: starts_before_def split: sum.splits)

lemma starts_before_distinct:
  "sorted_wrt starts_before ops \<Longrightarrow> distinct (map op_key ops)"
proof (induction ops)
  case Nil
  then show ?case by simp
next
  case (Cons a ops)
  then have "\<forall>x \<in> set ops. timing a \<noteq> timing x" by (auto dest: starts_before_timing)
  then have "op_key a \<notin> op_key ` set ops" by (auto simp: op_key_def)
  with Cons show ?case by simp
qed

text \<open>Sorting by a key that is distinct on the operations forgets the order handed over.\<close>

lemma sorted_distinct_unique:
  assumes m: "mset xs = mset ys" and sx: "sorted (map op_key xs)"
    and sy: "sorted (map op_key ys)" and dy: "distinct (map op_key ys)"
  shows "xs = ys"
proof -
  from m have "mset (map op_key xs) = mset (map op_key ys)" by simp
  from mset_eq_imp_distinct_iff [OF this] dy have dx: "distinct (map op_key xs)" by simp
  from m have set: "set xs = set ys" by (rule mset_eq_setD)
  from dy have "inj_on op_key (set ys)" by (simp add: distinct_map)
  with set have "inj_on op_key (set xs \<union> set ys)" by simp
  from this sx dx sy dy set show ?thesis by (rule map_sorted_distinct_set_unique)
qed

lemma generate_qasm_program_order_independent:
  assumes m: "mset ((case pulse_list' of None \<Rightarrow> [] | Some ps \<Rightarrow> ps)
                  @ (case acq_list' of None \<Rightarrow> [] | Some acqs \<Rightarrow> acqs))
            = mset ((case pulse_list of None \<Rightarrow> [] | Some ps \<Rightarrow> ps)
                  @ (case acq_list of None \<Rightarrow> [] | Some acqs \<Rightarrow> acqs))"
    and ok: "generate_qasm_program total_time pulse_list' awg_dict acq_list' acq_dict
               repetitions = Inr prog"
  shows "sorted_op_list pulse_list acq_list = sorted_op_list pulse_list' acq_list'"
proof -
  from generate_qasm_program_Inr [OF ok] obtain q where
    "emit_operations awg_dict acq_dict (sorted_op_list pulse_list' acq_list')
       (body_start repetitions) = Inr q"
    by blast
  from emit_operations_start_times [OF this]
  have "sorted_wrt starts_before (sorted_op_list pulse_list' acq_list')" by simp
  then have d: "distinct (map op_key (sorted_op_list pulse_list' acq_list'))"
    by (rule starts_before_distinct)
  from m have "mset (sorted_op_list pulse_list acq_list)
      = mset (sorted_op_list pulse_list' acq_list')"
    by (simp only: sorted_op_list_props)
  from this sorted_op_list_props(1) sorted_op_list_props(1) d show ?thesis
    by (rule sorted_distinct_unique)
qed

text \<open>Two operations of equal timing at different places of the queue stop the emission.\<close>

lemma equal_timing_not_emitted:
  assumes run: "emit_operations awg_dict acq_dict ops q = Inr q'"
    and a: "a \<in> set ops" and b: "b \<in> set ops" and ne: "a \<noteq> b"
    and t: "timing a = timing b"
  shows False
proof -
  from emit_operations_start_times [OF run] have s: "sorted_wrt starts_before ops" by simp
  from a b obtain i j where i: "i < length ops" "ops ! i = a" and j: "j < length ops" "ops ! j = b"
    by (auto simp: in_set_conv_nth)
  with ne have "i \<noteq> j" by auto
  then consider "i < j" | "j < i" by linarith
  then show False
  proof cases
    case 1
    with s j i have "starts_before a b" by (auto simp: sorted_wrt_iff_nth_less)
    with t show False by (auto dest: starts_before_timing)
  next
    case 2
    with s j i have "starts_before b a" by (auto simp: sorted_wrt_iff_nth_less)
    with t show False by (auto dest: starts_before_timing)
  qed
qed

section \<open>Order of emission\<close>

text \<open>
  Inputs in the style of the tests of \<^verbatim>\<open>QASMProgram\<close>: a pulse with minimal data
  and runtime settings, an acquisition with minimal data, and a waveform dict with
  the two entries of one uuid.
\<close>

definition test_pulse :: "int \<Rightarrow> real \<Rightarrow> OpInfo" where
  "test_pulse u t =
     \<lparr> uuid = u, data = [(''duration'', JNum (20 / 10 ^ 9))], timing = t,
       pulse_settings = Some \<lparr> awg_gain_0 = 1 / 2, awg_gain_1 = 0,
                               awg_offset_0 = 0, awg_offset_1 = 0 \<rparr> \<rparr>"

definition test_acq :: "int \<Rightarrow> real \<Rightarrow> OpInfo" where
  "test_acq u t =
     \<lparr> uuid = u,
       data = [(''duration'', JNum (20 / 10 ^ 9)), (''acq_index'', JNum 0),
               (''acq_channel'', JNum 1)],
       timing = t, pulse_settings = None \<rparr>"

definition test_wf_dict :: "int \<Rightarrow> wf_dict" where
  "test_wf_dict u =
     [(str_int u @ ''_I'', \<lparr> wf_data = [1], wf_index = 0 \<rparr>),
      (str_int u @ ''_Q'', \<lparr> wf_data = [0], wf_index = 1 \<rparr>)]"

lemma str_int_7: "str_int 7 = ''7''"
  by (simp add: str_int_def str_nat.simps)

lemma str_int_9: "str_int 9 = ''9''"
  by (simp add: str_int_def str_nat.simps)

lemma to_pulsar_time_examples:
  "to_pulsar_time 0 = Inr 0"
  "to_pulsar_time (100 / 10 ^ 9) = Inr 100"
  "to_pulsar_time (200 / 10 ^ 9) = Inr 200"
  "to_pulsar_time (50000 / 10 ^ 9) = Inr 50000"
  "to_pulsar_time (100000 / 10 ^ 9) = Inr 100000"
  "to_pulsar_time (131076 / 10 ^ 9) = Inr 131076"
  by (simp_all add: to_pulsar_time_def round_double_numeral np_round_def GRID_TIME_ns_def)

lemma expand_half: "expand_from_normalised_range (1 / 2) = Inr 16383"
proof -
  have e: "(1 / 2 * 65535 :: real) = 65535 / 2" by simp
  have rd: "round_double (65535 / 2) = 65535 / 2"
    by (rule round_double_dyadic [of _ 65535 1]) simp_all
  have fl: "\<lfloor>65535 / 2 / 2 :: real\<rfloor> = 16383" by (simp add: floor_eq_iff)
  have "expand_from_normalised_range (1 / 2) = Inr \<lfloor>round_double (1 / 2 * 65535) / 2\<rfloor>"
    by (rule expand_in_range) simp
  then show ?thesis unfolding e rd fl .
qed

lemma expand_zero: "expand_from_normalised_range 0 = Inr 0"
  by (simp add: expand_in_range)

lemma test_is_acquisition:
  "\<not> is_acquisition (test_pulse u t)" "is_acquisition (test_acq u t)"
  by (simp_all add: test_pulse_def test_acq_def is_acquisition_def contains_def)

lemma test_ops_sorted:
  "sorted_op_list (Some [test_pulse 7 (100 / 10 ^ 9)]) (Some [test_acq 9 0])
     = [test_acq 9 0, test_pulse 7 (100 / 10 ^ 9)]"
  "sorted_op_list (Some [test_acq 9 0, test_pulse 7 (100 / 10 ^ 9)]) None
     = [test_acq 9 0, test_pulse 7 (100 / 10 ^ 9)]"
  "sorted_op_list (Some [test_pulse 7 (100 / 10 ^ 9)]) (Some [test_acq 9 (100 / 10 ^ 9)])
     = [test_pulse 7 (100 / 10 ^ 9), test_acq 9 (100 / 10 ^ 9)]"
  by (simp_all add: sorted_op_list_def op_key_def less_eq_prod_def test_pulse_def test_acq_def
      is_acquisition_def contains_def)

lemma test_rows:
  "play_or_acquire_row (Some (test_wf_dict 7)) (Some (test_wf_dict 9)) (test_acq 9 0)
     = Inr \<lparr> label_str = '''', instruction = ACQUIRE,
             instr_args = [IntArg 0, IntArg 1, IntArg 4], comment_str = '''' \<rparr>"
  "play_or_acquire_row (Some (test_wf_dict 7)) (Some (test_wf_dict 9))
       (test_pulse 7 (100 / 10 ^ 9))
     = Inr \<lparr> label_str = '''', instruction = PLAY,
             instr_args = [IntArg 0, IntArg 1, IntArg 4], comment_str = '''' \<rparr>"
  by (simp_all add: play_or_acquire_row_def test_pulse_def test_acq_def test_wf_dict_def
      is_acquisition_def contains_def get_indices_from_wf_dict_def
      generate_waveform_names_from_uuid_def str_int_7 str_int_9
      get_instruction_as_list_def GRID_TIME_ns_def)

text \<open>The emission of one test acquisition and of one test pulse.\<close>

lemma test_emit_acq:
  assumes "to_pulsar_time t = Inr n" and "e \<le> n"
  shows "emit_operation (Some (test_wf_dict 7)) (Some (test_wf_dict 9)) (test_acq 9 t)
             \<lparr> instructions = rows, elapsed_time = e \<rparr>
      = Inr \<lparr> instructions = rows @ start_waits n e @
            [\<lparr> label_str = '''', instruction = ACQUIRE,
               instr_args = [IntArg 0, IntArg 1, IntArg 4], comment_str = '''' \<rparr>],
          elapsed_time = n + 4 \<rparr>"
proof (cases "n = e")
  case True
  with assms show ?thesis
    by (simp add: emit_operation_def test_acq_def test_wf_dict_def is_acquisition_def
        contains_def get_indices_from_wf_dict_def generate_waveform_names_from_uuid_def
        str_int_9 wait_till_start_then_acquire_def wait_till_start_operation_def
        start_waits_def emit_short GRID_TIME_ns_def)
next
  case False
  with assms have "0 < n - e" by simp
  with assms False show ?thesis
    by (simp add: emit_operation_def test_acq_def test_wf_dict_def is_acquisition_def
        contains_def get_indices_from_wf_dict_def generate_waveform_names_from_uuid_def
        str_int_9 wait_till_start_then_acquire_def wait_till_start_operation_def
        auto_wait_eq start_waits_def emit_short GRID_TIME_ns_def)
qed

lemma test_emit_pulse:
  assumes "to_pulsar_time t = Inr n" and "e \<le> n"
  shows "emit_operation (Some (test_wf_dict 7)) acq_dict (test_pulse 7 t)
             \<lparr> instructions = rows, elapsed_time = e \<rparr>
      = Inr \<lparr> instructions = rows @ start_waits n e @
            [\<lparr> label_str = '''', instruction = SET_AWG_GAIN,
               instr_args = [IntArg 16383, IntArg 0],
               comment_str = ''# setting gain for 7'' \<rparr>,
             \<lparr> label_str = '''', instruction = PLAY,
               instr_args = [IntArg 0, IntArg 1, IntArg 4], comment_str = '''' \<rparr>],
          elapsed_time = n + 4 \<rparr>"
proof (cases "n = e")
  case True
  with assms show ?thesis
    by (simp add: emit_operation_def test_pulse_def test_wf_dict_def is_acquisition_def
        contains_def get_indices_from_wf_dict_def generate_waveform_names_from_uuid_def
        str_int_7 wait_till_start_then_play_def wait_till_start_operation_def
        start_waits_def update_runtime_settings_def expand_half expand_zero emit_short
        GRID_TIME_ns_def)
next
  case False
  with assms have "0 < n - e" by simp
  with assms False show ?thesis
    by (simp add: emit_operation_def test_pulse_def test_wf_dict_def is_acquisition_def
        contains_def get_indices_from_wf_dict_def generate_waveform_names_from_uuid_def
        str_int_7 wait_till_start_then_play_def wait_till_start_operation_def
        auto_wait_eq start_waits_def update_runtime_settings_def expand_half expand_zero
        emit_short GRID_TIME_ns_def)
qed

lemma test_emit_late:
  assumes "to_pulsar_time t = Inr n" and "n < e"
  shows "emit_operation (Some (test_wf_dict 7)) (Some (test_wf_dict 9)) (test_acq 9 t)
             \<lparr> instructions = rows, elapsed_time = e \<rparr> = Inl ValueError"
  using assms
  by (simp add: emit_operation_def test_acq_def test_wf_dict_def is_acquisition_def
      contains_def get_indices_from_wf_dict_def generate_waveform_names_from_uuid_def
      str_int_9 wait_till_start_then_acquire_def wait_till_start_operation_def)

lemma body_start_record:
  "body_start repetitions =
     \<lparr> instructions = instructions (body_start repetitions), elapsed_time = 0 \<rparr>"
  by (simp add: body_start_def)

lemma test_program:
  "generate_qasm_program (200 / 10 ^ 9) (Some [test_pulse 7 (100 / 10 ^ 9)])
     (Some (test_wf_dict 7)) (Some [test_acq 9 0]) (Some (test_wf_dict 9)) 1
   = Inr \<lparr> instructions = instructions (body_start 1) @
            [\<lparr> label_str = '''', instruction = ACQUIRE,
               instr_args = [IntArg 0, IntArg 1, IntArg 4], comment_str = '''' \<rparr>,
             \<lparr> label_str = '''', instruction = WAIT, instr_args = [IntArg 96],
               comment_str = '''' \<rparr>,
             \<lparr> label_str = '''', instruction = SET_AWG_GAIN,
               instr_args = [IntArg 16383, IntArg 0],
               comment_str = ''# setting gain for 7'' \<rparr>,
             \<lparr> label_str = '''', instruction = PLAY,
               instr_args = [IntArg 0, IntArg 1, IntArg 4], comment_str = '''' \<rparr>,
             \<lparr> label_str = '''', instruction = WAIT, instr_args = [IntArg 96],
               comment_str = '''' \<rparr>] @ footer_rows,
          elapsed_time = 200 \<rparr>"
proof -
  have a: "emit_operation (Some (test_wf_dict 7)) (Some (test_wf_dict 9)) (test_acq 9 0)
             (body_start 1)
      = Inr \<lparr> instructions = instructions (body_start 1) @
            [\<lparr> label_str = '''', instruction = ACQUIRE,
               instr_args = [IntArg 0, IntArg 1, IntArg 4], comment_str = '''' \<rparr>],
          elapsed_time = 4 \<rparr>"
    using test_emit_acq [OF to_pulsar_time_examples(1), of 0 "instructions (body_start 1)"]
    by (simp add: body_start_record [symmetric] start_waits_def)
  have b: "emit_operation (Some (test_wf_dict 7)) (Some (test_wf_dict 9))
             (test_pulse 7 (100 / 10 ^ 9))
             \<lparr> instructions = rows, elapsed_time = 4 \<rparr>
      = Inr \<lparr> instructions = rows @
            [\<lparr> label_str = '''', instruction = WAIT, instr_args = [IntArg 96],
               comment_str = '''' \<rparr>,
             \<lparr> label_str = '''', instruction = SET_AWG_GAIN,
               instr_args = [IntArg 16383, IntArg 0],
               comment_str = ''# setting gain for 7'' \<rparr>,
             \<lparr> label_str = '''', instruction = PLAY,
               instr_args = [IntArg 0, IntArg 1, IntArg 4], comment_str = '''' \<rparr>],
          elapsed_time = 104 \<rparr>" for rows
    using test_emit_pulse [OF to_pulsar_time_examples(2), of 4 "Some (test_wf_dict 9)" rows]
    by (simp add: start_waits_def wait_rows_def wait_row_def)
  show ?thesis
    unfolding generate_qasm_program_eq test_ops_sorted emit_operations.simps a bind_Inr b
      to_pulsar_time_examples
    by (simp add: wait_rows_def wait_row_def)
qed

lemma test_program_tie:
  "generate_qasm_program (200 / 10 ^ 9) (Some [test_pulse 7 (100 / 10 ^ 9)])
     (Some (test_wf_dict 7)) (Some [test_acq 9 (100 / 10 ^ 9)]) (Some (test_wf_dict 9)) 1
   = Inl ValueError"
proof -
  have a: "emit_operation (Some (test_wf_dict 7)) (Some (test_wf_dict 9))
             (test_pulse 7 (100 / 10 ^ 9)) (body_start 1)
      = Inr \<lparr> instructions = instructions (body_start 1) @ start_waits 100 0 @
            [\<lparr> label_str = '''', instruction = SET_AWG_GAIN,
               instr_args = [IntArg 16383, IntArg 0],
               comment_str = ''# setting gain for 7'' \<rparr>,
             \<lparr> label_str = '''', instruction = PLAY,
               instr_args = [IntArg 0, IntArg 1, IntArg 4], comment_str = '''' \<rparr>],
          elapsed_time = 104 \<rparr>"
    using test_emit_pulse [OF to_pulsar_time_examples(2), of 0 "Some (test_wf_dict 9)"
        "instructions (body_start 1)"]
    by (simp add: body_start_record [symmetric])
  have b: "emit_operation (Some (test_wf_dict 7)) (Some (test_wf_dict 9))
             (test_acq 9 (100 / 10 ^ 9)) \<lparr> instructions = rows, elapsed_time = 104 \<rparr>
      = Inl ValueError" for rows
    by (rule test_emit_late [OF to_pulsar_time_examples(2)]) simp
  show ?thesis
    unfolding generate_qasm_program_eq test_ops_sorted emit_operations.simps a bind_Inr b
    by simp
qed

text \<open>
  C5 (as the code has it). The operations are visited in non-decreasing order of the
  key \<open>(timing, is_acquisition)\<close>: the visited list is a sorted permutation of the
  pulses and acquisitions handed over, in which a pulse comes before every acquisition
  of the same timing. The \<^verbatim>\<open>play\<close> and \<^verbatim>\<open>acquire\<close> rows of an emitted program
  are, in this order, the rows of the visited operations, and each operation starts
  at least 4 ns after the one before. A pulse and an acquisition of the same timing
  are not emitted: the compilation ends with an exception. When the operations handed
  over in one order are emitted, they are emitted, with the same program, in whatever
  order they are handed over.
\<close>

theorem body_emission_order:
  "sorted (map op_key (sorted_op_list pulse_list acq_list))
   \<and> mset (sorted_op_list pulse_list acq_list) =
       mset ((case pulse_list of None \<Rightarrow> [] | Some ps \<Rightarrow> ps)
             @ (case acq_list of None \<Rightarrow> [] | Some acqs \<Rightarrow> acqs))
   \<and> (\<forall>i j. i < length (sorted_op_list pulse_list acq_list)
          \<and> j < length (sorted_op_list pulse_list acq_list)
          \<and> timing (sorted_op_list pulse_list acq_list ! i)
              = timing (sorted_op_list pulse_list acq_list ! j)
          \<and> \<not> is_acquisition (sorted_op_list pulse_list acq_list ! i)
          \<and> is_acquisition (sorted_op_list pulse_list acq_list ! j) \<longrightarrow> i < j)
   \<and> (\<forall>prog. generate_qasm_program total_time pulse_list awg_dict acq_list acq_dict
                 repetitions = Inr prog \<longrightarrow>
          map Inr (filter is_play_or_acquire (instructions prog)) =
          map (play_or_acquire_row awg_dict acq_dict) (sorted_op_list pulse_list acq_list)
          \<and> sorted_wrt starts_before (sorted_op_list pulse_list acq_list))
   \<and> (\<forall>p a. p \<in> set ((case pulse_list of None \<Rightarrow> [] | Some ps \<Rightarrow> ps)
                       @ (case acq_list of None \<Rightarrow> [] | Some acqs \<Rightarrow> acqs))
          \<and> a \<in> set ((case pulse_list of None \<Rightarrow> [] | Some ps \<Rightarrow> ps)
                       @ (case acq_list of None \<Rightarrow> [] | Some acqs \<Rightarrow> acqs))
          \<and> \<not> is_acquisition p \<and> is_acquisition a \<and> timing p = timing a \<longrightarrow>
          isl (generate_qasm_program total_time pulse_list awg_dict acq_list acq_dict
                 repetitions))
   \<and> (\<forall>pulse_list' acq_list' prog.
          mset ((case pulse_list' of None \<Rightarrow> [] | Some ps \<Rightarrow> ps)
                @ (case acq_list' of None \<Rightarrow> [] | Some acqs \<Rightarrow> acqs))
            = mset ((case pulse_list of None \<Rightarrow> [] | Some ps \<Rightarrow> ps)
                @ (case acq_list of None \<Rightarrow> [] | Some acqs \<Rightarrow> acqs))
          \<and> generate_qasm_program total_time pulse_list' awg_dict acq_list' acq_dict
                repetitions = Inr prog \<longrightarrow>
          generate_qasm_program total_time pulse_list awg_dict acq_list acq_dict
                repetitions = Inr prog)"
proof (intro conjI allI impI)
  show "sorted (map op_key (sorted_op_list pulse_list acq_list))"
    by (rule sorted_op_list_props)
  show "mset (sorted_op_list pulse_list acq_list) =
       mset ((case pulse_list of None \<Rightarrow> [] | Some ps \<Rightarrow> ps)
             @ (case acq_list of None \<Rightarrow> [] | Some acqs \<Rightarrow> acqs))"
    by (rule sorted_op_list_props)
next
  fix i j
  assume "i < length (sorted_op_list pulse_list acq_list)
          \<and> j < length (sorted_op_list pulse_list acq_list)
          \<and> timing (sorted_op_list pulse_list acq_list ! i)
              = timing (sorted_op_list pulse_list acq_list ! j)
          \<and> \<not> is_acquisition (sorted_op_list pulse_list acq_list ! i)
          \<and> is_acquisition (sorted_op_list pulse_list acq_list ! j)"
  with sorted_op_list_props(1) [of pulse_list acq_list] show "i < j"
    by (blast intro: pulse_before_acquisition)
next
  fix prog
  assume "generate_qasm_program total_time pulse_list awg_dict acq_list acq_dict repetitions
            = Inr prog"
  from generate_qasm_program_Inr [OF this] obtain q e where
    run: "emit_operations awg_dict acq_dict (sorted_op_list pulse_list acq_list)
            (body_start repetitions) = Inr q"
    and lt: "elapsed_time q < e"
    and prog: "prog = \<lparr> instructions = instructions q @ wait_rows (e - elapsed_time q)
                                       @ footer_rows,
                       elapsed_time = e \<rparr>"
    by blast
  from lt have "filter is_play_or_acquire (wait_rows (e - elapsed_time q)) = []"
    by (simp add: filter_wait_rows)
  with prog have "filter is_play_or_acquire (instructions prog)
      = filter is_play_or_acquire (instructions q)"
    by (simp add: filter_footer_rows)
  with emit_operations_filter [OF run]
  show "map Inr (filter is_play_or_acquire (instructions prog)) =
          map (play_or_acquire_row awg_dict acq_dict) (sorted_op_list pulse_list acq_list)"
    by (simp add: filter_body_start)
  from emit_operations_start_times [OF run]
  show "sorted_wrt starts_before (sorted_op_list pulse_list acq_list)" by simp
next
  fix p a
  let ?handed = "(case pulse_list of None \<Rightarrow> [] | Some ps \<Rightarrow> ps)
                       @ (case acq_list of None \<Rightarrow> [] | Some acqs \<Rightarrow> acqs)"
  assume h: "p \<in> set ?handed \<and> a \<in> set ?handed
          \<and> \<not> is_acquisition p \<and> is_acquisition a \<and> timing p = timing a"
  have "set (sorted_op_list pulse_list acq_list) = set ?handed"
    using sorted_op_list_props(2) [of pulse_list acq_list] by (rule mset_eq_setD)
  with h have mem: "p \<in> set (sorted_op_list pulse_list acq_list)"
    "a \<in> set (sorted_op_list pulse_list acq_list)" by simp_all
  from h have ne: "p \<noteq> a" by auto
  show "isl (generate_qasm_program total_time pulse_list awg_dict acq_list acq_dict
                 repetitions)"
  proof (cases "generate_qasm_program total_time pulse_list awg_dict acq_list acq_dict
                 repetitions")
    case (Inl e)
    then show ?thesis by simp
  next
    case (Inr prog)
    from generate_qasm_program_Inr [OF this] obtain q where
      "emit_operations awg_dict acq_dict (sorted_op_list pulse_list acq_list)
            (body_start repetitions) = Inr q"
      by blast
    from equal_timing_not_emitted [OF this mem ne] h show ?thesis by simp
  qed
next
  fix pulse_list' acq_list' prog
  assume h: "mset ((case pulse_list' of None \<Rightarrow> [] | Some ps \<Rightarrow> ps)
                @ (case acq_list' of None \<Rightarrow> [] | Some acqs \<Rightarrow> acqs))
            = mset ((case pulse_list of None \<Rightarrow> [] | Some ps \<Rightarrow> ps)
                @ (case acq_list of None \<Rightarrow> [] | Some acqs \<Rightarrow> acqs))
          \<and> generate_qasm_program total_time pulse_list' awg_dict acq_list' acq_dict
                repetitions = Inr prog"
  then have "sorted_op_list pulse_list acq_list = sorted_op_list pulse_list' acq_list'"
    by (blast intro: generate_qasm_program_order_independent)
  with h show "generate_qasm_program total_time pulse_list awg_dict acq_list acq_dict
                repetitions = Inr prog"
    by (simp add: generate_qasm_program_eq)
qed

theorem body_emission_order_witness:
  "generate_qasm_program (200 / 10 ^ 9) (Some [test_pulse 7 (100 / 10 ^ 9)])
     (Some (test_wf_dict 7)) (Some [test_acq 9 0]) (Some (test_wf_dict 9)) 1
   = Inr \<lparr> instructions = instructions (body_start 1) @
            [\<lparr> label_str = '''', instruction = ACQUIRE,
               instr_args = [IntArg 0, IntArg 1, IntArg 4], comment_str = '''' \<rparr>,
             \<lparr> label_str = '''', instruction = WAIT, instr_args = [IntArg 96],
               comment_str = '''' \<rparr>,
             \<lparr> label_str = '''', instruction = SET_AWG_GAIN,
               instr_args = [IntArg 16383, IntArg 0],
               comment_str = ''# setting gain for 7'' \<rparr>,
             \<lparr> label_str = '''', instruction = PLAY,
               instr_args = [IntArg 0, IntArg 1, IntArg 4], comment_str = '''' \<rparr>,
             \<lparr> label_str = '''', instruction = WAIT, instr_args = [IntArg 96],
               comment_str = '''' \<rparr>] @ footer_rows,
          elapsed_time = 200 \<rparr>
   \<and> map Inr (filter is_play_or_acquire
        (instructions (body_start 1) @
            [\<lparr> label_str = '''', instruction = ACQUIRE,
               instr_args = [IntArg 0, IntArg 1, IntArg 4], comment_str = '''' \<rparr>,
             \<lparr> label_str = '''', instruction = WAIT, instr_args = [IntArg 96],
               comment_str = '''' \<rparr>,
             \<lparr> label_str = '''', instruction = SET_AWG_GAIN,
               instr_args = [IntArg 16383, IntArg 0],
               comment_str = ''# setting gain for 7'' \<rparr>,
             \<lparr> label_str = '''', instruction = PLAY,
               instr_args = [IntArg 0, IntArg 1, IntArg 4], comment_str = '''' \<rparr>,
             \<lparr> label_str = '''', instruction = WAIT, instr_args = [IntArg 96],
               comment_str = '''' \<rparr>] @ footer_rows))
     = map (play_or_acquire_row (Some (test_wf_dict 7)) (Some (test_wf_dict 9)))
         [test_acq 9 0, test_pulse 7 (100 / 10 ^ 9)]
   \<and> starts_before (test_acq 9 0) (test_pulse 7 (100 / 10 ^ 9))
   \<and> generate_qasm_program (200 / 10 ^ 9) (Some [test_acq 9 0, test_pulse 7 (100 / 10 ^ 9)])
        (Some (test_wf_dict 7)) None (Some (test_wf_dict 9)) 1
      = generate_qasm_program (200 / 10 ^ 9) (Some [test_pulse 7 (100 / 10 ^ 9)])
          (Some (test_wf_dict 7)) (Some [test_acq 9 0]) (Some (test_wf_dict 9)) 1
   \<and> sorted_op_list (Some [test_pulse 7 (100 / 10 ^ 9)]) (Some [test_acq 9 (100 / 10 ^ 9)])
      = [test_pulse 7 (100 / 10 ^ 9), test_acq 9 (100 / 10 ^ 9)]
   \<and> isl (generate_qasm_program (200 / 10 ^ 9) (Some [test_pulse 7 (100 / 10 ^ 9)])
        (Some (test_wf_dict 7)) (Some [test_acq 9 (100 / 10 ^ 9)]) (Some (test_wf_dict 9)) 1)"
proof -
  let ?p = "test_pulse 7 (100 / 10 ^ 9)"
  let ?awg = "Some (test_wf_dict 7)" and ?acq = "Some (test_wf_dict 9)"
  note emitted = body_emission_order [of "Some [?p]" "Some [test_acq 9 0]" "200 / 10 ^ 9"
      ?awg ?acq 1]
  from emitted have rows: "map Inr (filter is_play_or_acquire
        (instructions (body_start 1) @
            [\<lparr> label_str = '''', instruction = ACQUIRE,
               instr_args = [IntArg 0, IntArg 1, IntArg 4], comment_str = '''' \<rparr>,
             \<lparr> label_str = '''', instruction = WAIT, instr_args = [IntArg 96],
               comment_str = '''' \<rparr>,
             \<lparr> label_str = '''', instruction = SET_AWG_GAIN,
               instr_args = [IntArg 16383, IntArg 0],
               comment_str = ''# setting gain for 7'' \<rparr>,
             \<lparr> label_str = '''', instruction = PLAY,
               instr_args = [IntArg 0, IntArg 1, IntArg 4], comment_str = '''' \<rparr>,
             \<lparr> label_str = '''', instruction = WAIT, instr_args = [IntArg 96],
               comment_str = '''' \<rparr>] @ footer_rows))
     = map (play_or_acquire_row ?awg ?acq) [test_acq 9 0, ?p]"
    and before: "starts_before (test_acq 9 0) ?p"
    unfolding test_program test_ops_sorted by simp_all
  have m: "mset ((case Some [?p] of None \<Rightarrow> [] | Some ps \<Rightarrow> ps)
                @ (case Some [test_acq 9 0] of None \<Rightarrow> [] | Some acqs \<Rightarrow> acqs))
         = mset ((case Some [test_acq 9 0, ?p] of None \<Rightarrow> [] | Some ps \<Rightarrow> ps)
                @ (case None of None \<Rightarrow> [] | Some acqs \<Rightarrow> acqs))"
    by simp
  note other_order = body_emission_order [of "Some [test_acq 9 0, ?p]" None "200 / 10 ^ 9"
      ?awg ?acq 1, THEN conjunct2, THEN conjunct2, THEN conjunct2, THEN conjunct2,
      THEN conjunct2, rule_format, OF conjI [OF m test_program]]
  have tie: "?p \<in> set ((case Some [?p] of None \<Rightarrow> [] | Some ps \<Rightarrow> ps)
                @ (case Some [test_acq 9 (100 / 10 ^ 9)] of None \<Rightarrow> [] | Some acqs \<Rightarrow> acqs))
      \<and> test_acq 9 (100 / 10 ^ 9) \<in> set ((case Some [?p] of None \<Rightarrow> [] | Some ps \<Rightarrow> ps)
                @ (case Some [test_acq 9 (100 / 10 ^ 9)] of None \<Rightarrow> [] | Some acqs \<Rightarrow> acqs))
      \<and> \<not> is_acquisition ?p \<and> is_acquisition (test_acq 9 (100 / 10 ^ 9))
      \<and> timing ?p = timing (test_acq 9 (100 / 10 ^ 9))"
    by (simp add: test_is_acquisition) (simp add: test_pulse_def test_acq_def)
  note rejected = body_emission_order [of "Some [?p]" "Some [test_acq 9 (100 / 10 ^ 9)]"
      "200 / 10 ^ 9" ?awg ?acq 1, THEN conjunct2, THEN conjunct2, THEN conjunct2,
      THEN conjunct2, THEN conjunct1, rule_format, OF tie]
  from rows before other_order rejected show ?thesis
    by (simp only: test_program test_ops_sorted simp_thms)
qed

text \<open>
  The claim as stated fails for a pulse and an acquisition scheduled at the same
  instant, here 100 ns: the pulse is visited first, its \<^verbatim>\<open>play\<close> advances the
  elapsed time to 104 ns, and \<^verbatim>\<open>wait_till_start_operation\<close> then raises
  \<^verbatim>\<open>ValueError\<close> for the acquisition, so that the acquisition is not emitted after
  the pulse: nothing is emitted.
\<close>

theorem body_emission_order_counterexample:
  "sorted_op_list (Some [test_pulse 7 (100 / 10 ^ 9)]) (Some [test_acq 9 (100 / 10 ^ 9)])
     = [test_pulse 7 (100 / 10 ^ 9), test_acq 9 (100 / 10 ^ 9)]
   \<and> timing (test_pulse 7 (100 / 10 ^ 9)) = timing (test_acq 9 (100 / 10 ^ 9))
   \<and> generate_qasm_program (200 / 10 ^ 9) (Some [test_pulse 7 (100 / 10 ^ 9)])
        (Some (test_wf_dict 7)) (Some [test_acq 9 (100 / 10 ^ 9)]) (Some (test_wf_dict 9)) 1
      = Inl ValueError"
  by (simp only: test_ops_sorted test_program_tie simp_thms)
    (simp add: test_pulse_def test_acq_def)

section \<open>Grid alignment\<close>

text \<open>
  C8 (as the code has it). In every emitted program the last operand of each
  \<^verbatim>\<open>play\<close> and \<^verbatim>\<open>acquire\<close> row is 4, and every value of the elapsed-time counter
  is a multiple of 4: the final one, the one before each operation, the one reached
  by the wait that precedes an operation, and the one after the last operation. Hence
  every wait that the emitter requires, before an operation or at the end, is a
  multiple of 4; when it is at most 65535 ns it is emitted as one \<^verbatim>\<open>wait\<close> row
  with that operand. So the operand of every \<^verbatim>\<open>wait\<close> row of the program is a
  multiple of 4, unless the row belongs to a wait that was split: it is a row
  \<^verbatim>\<open>wait 65535 # auto generated wait\<close> or the row directly after one.
\<close>

theorem grid_alignment:
  assumes "generate_qasm_program total_time pulse_list awg_dict acq_list acq_dict repetitions
             = Inr prog"
  shows "(\<forall>r \<in> set (instructions prog). is_play_or_acquire r \<longrightarrow>
            (\<exists>i0 i1. instr_args r = [IntArg i0, IntArg i1, IntArg 4]))
    \<and> (\<forall>i < length (instructions prog). instruction (instructions prog ! i) = WAIT \<longrightarrow>
            (\<exists>w. instr_args (instructions prog ! i) = [IntArg w]
                  \<and> (4 dvd w \<or> instructions prog ! i = chunk_row
                       \<or> (0 < i \<and> instructions prog ! (i - 1) = chunk_row))))
    \<and> 4 dvd elapsed_time prog
    \<and> (\<forall>k < length (sorted_op_list pulse_list acq_list). \<exists>q q1.
            emit_operations awg_dict acq_dict (take k (sorted_op_list pulse_list acq_list))
              (body_start repetitions) = Inr q
            \<and> 4 dvd elapsed_time q
            \<and> wait_till_start_operation (sorted_op_list pulse_list acq_list ! k) q = Inr q1
            \<and> 4 dvd elapsed_time q1 \<and> elapsed_time q \<le> elapsed_time q1
            \<and> (elapsed_time q1 - elapsed_time q \<le> 65535 \<longrightarrow>
                 instructions q1 = instructions q @
                   (if elapsed_time q1 = elapsed_time q then []
                    else [wait_row (elapsed_time q1 - elapsed_time q) ''''])))
    \<and> (\<exists>q. emit_operations awg_dict acq_dict (sorted_op_list pulse_list acq_list)
              (body_start repetitions) = Inr q
            \<and> 4 dvd elapsed_time q \<and> elapsed_time q < elapsed_time prog
            \<and> (elapsed_time prog - elapsed_time q \<le> 65535 \<longrightarrow>
                 instructions prog = instructions q @
                   [wait_row (elapsed_time prog - elapsed_time q) ''''] @ footer_rows))"
proof -
  let ?ops = "sorted_op_list pulse_list acq_list"
  from generate_qasm_program_Inr [OF assms] obtain q e where
    run: "emit_operations awg_dict acq_dict ?ops (body_start repetitions) = Inr q"
    and e: "to_pulsar_time total_time = Inr e" and lt: "elapsed_time q < e"
    and prog: "prog = \<lparr> instructions = instructions q @ wait_rows (e - elapsed_time q)
                                       @ footer_rows,
                       elapsed_time = e \<rparr>"
    by blast
  from emit_operations_aligned [OF aligned_body_start run] have aq: "aligned q" by simp
  have foot: "\<forall>r \<in> set footer_rows. \<not> is_play_or_acquire r \<and> instruction r \<noteq> WAIT"
    by (simp add: footer_rows_def is_play_or_acquire_def)
  have "aligned \<lparr> instructions = instructions q @ start_waits e (elapsed_time q)
                                       @ footer_rows @ [],
                  elapsed_time = e \<rparr>"
    using aq _ to_pulsar_time_grid [OF e] _ to_pulsar_time_grid [OF e] foot
    by (rule aligned_extend) (use lt in simp_all)
  with lt prog have ap: "aligned prog" by (simp add: start_waits_def)
  have plays: "\<forall>r \<in> set (instructions prog). is_play_or_acquire r \<longrightarrow>
            (\<exists>i0 i1. instr_args r = [IntArg i0, IntArg i1, IntArg 4])"
    using ap by (simp add: aligned_def)
  have waits: "\<exists>w. instr_args (instructions prog ! i) = [IntArg w]
                  \<and> (4 dvd w \<or> instructions prog ! i = chunk_row
                       \<or> (0 < i \<and> instructions prog ! (i - 1) = chunk_row))"
    if "i < length (instructions prog)" "instruction (instructions prog ! i) = WAIT" for i
  proof -
    from ap have "waits_on_grid False (instructions prog)" by (simp add: aligned_def)
    from waits_on_grid_nth [OF this that] show ?thesis
      by (cases "i = 0") auto
  qed
  have trace: "\<exists>q0 q1. emit_operations awg_dict acq_dict (take k ?ops) (body_start repetitions)
                  = Inr q0
            \<and> 4 dvd elapsed_time q0
            \<and> wait_till_start_operation (?ops ! k) q0 = Inr q1
            \<and> 4 dvd elapsed_time q1 \<and> elapsed_time q0 \<le> elapsed_time q1
            \<and> (elapsed_time q1 - elapsed_time q0 \<le> 65535 \<longrightarrow>
                 instructions q1 = instructions q0 @
                   (if elapsed_time q1 = elapsed_time q0 then []
                    else [wait_row (elapsed_time q1 - elapsed_time q0) '''']))"
    if k: "k < length ?ops" for k
  proof -
    from k have split: "?ops = take k ?ops @ (?ops ! k) # drop (Suc k) ?ops"
      by (simp add: id_take_nth_drop)
    from run have "emit_operations awg_dict acq_dict
        (take k ?ops @ (?ops ! k) # drop (Suc k) ?ops) (body_start repetitions) = Inr q"
      using split by simp
    then obtain q0 q0' where
      a: "emit_operations awg_dict acq_dict (take k ?ops) (body_start repetitions) = Inr q0"
      and b: "emit_operation awg_dict acq_dict (?ops ! k) q0 = Inr q0'"
      by (auto simp: emit_operations_append bind_eq_Inr)
    from emit_operations_aligned [OF aligned_body_start a] have "4 dvd elapsed_time q0"
      by (simp add: aligned_def)
    with a emit_operation_wait_state [OF b] show ?thesis by blast
  qed
  have final: "emit_operations awg_dict acq_dict ?ops (body_start repetitions) = Inr q
            \<and> 4 dvd elapsed_time q \<and> elapsed_time q < elapsed_time prog
            \<and> (elapsed_time prog - elapsed_time q \<le> 65535 \<longrightarrow>
                 instructions prog = instructions q @
                   [wait_row (elapsed_time prog - elapsed_time q) ''''] @ footer_rows)"
    using run aq lt prog by (simp add: aligned_def wait_rows_short)
  from ap have "4 dvd elapsed_time prog" by (simp add: aligned_def)
  with plays waits trace final show ?thesis by blast
qed

text \<open>
  A program of 100 \<open>\<mu>\<close>s with one pulse at 50 \<open>\<mu>\<close>s: the waits of 50000 ns and
  49996 ns are emitted as single rows.
\<close>

lemma test_program_long:
  "generate_qasm_program (100000 / 10 ^ 9) (Some [test_pulse 7 (50000 / 10 ^ 9)])
     (Some (test_wf_dict 7)) None None 1
   = Inr \<lparr> instructions = instructions (body_start 1) @
            [\<lparr> label_str = '''', instruction = WAIT, instr_args = [IntArg 50000],
               comment_str = '''' \<rparr>,
             \<lparr> label_str = '''', instruction = SET_AWG_GAIN,
               instr_args = [IntArg 16383, IntArg 0],
               comment_str = ''# setting gain for 7'' \<rparr>,
             \<lparr> label_str = '''', instruction = PLAY,
               instr_args = [IntArg 0, IntArg 1, IntArg 4], comment_str = '''' \<rparr>,
             \<lparr> label_str = '''', instruction = WAIT, instr_args = [IntArg 49996],
               comment_str = '''' \<rparr>] @ footer_rows,
          elapsed_time = 100000 \<rparr>"
proof -
  have s: "sorted_op_list (Some [test_pulse 7 (50000 / 10 ^ 9)]) None
             = [test_pulse 7 (50000 / 10 ^ 9)]"
    by (simp add: sorted_op_list_def)
  have a: "emit_operation (Some (test_wf_dict 7)) None (test_pulse 7 (50000 / 10 ^ 9))
             (body_start 1)
      = Inr \<lparr> instructions = instructions (body_start 1) @
            [\<lparr> label_str = '''', instruction = WAIT, instr_args = [IntArg 50000],
               comment_str = '''' \<rparr>,
             \<lparr> label_str = '''', instruction = SET_AWG_GAIN,
               instr_args = [IntArg 16383, IntArg 0],
               comment_str = ''# setting gain for 7'' \<rparr>,
             \<lparr> label_str = '''', instruction = PLAY,
               instr_args = [IntArg 0, IntArg 1, IntArg 4], comment_str = '''' \<rparr>],
          elapsed_time = 50004 \<rparr>"
    using test_emit_pulse [OF to_pulsar_time_examples(4), of 0 None
        "instructions (body_start 1)"]
    by (simp add: body_start_record [symmetric] start_waits_def wait_rows_def wait_row_def)
  show ?thesis
    unfolding generate_qasm_program_eq s emit_operations.simps a bind_Inr
      to_pulsar_time_examples
    by (simp add: wait_rows_def wait_row_def)
qed

theorem grid_alignment_witness:
  "generate_qasm_program (100000 / 10 ^ 9) (Some [test_pulse 7 (50000 / 10 ^ 9)])
     (Some (test_wf_dict 7)) None None 1
   = Inr \<lparr> instructions = instructions (body_start 1) @
            [\<lparr> label_str = '''', instruction = WAIT, instr_args = [IntArg 50000],
               comment_str = '''' \<rparr>,
             \<lparr> label_str = '''', instruction = SET_AWG_GAIN,
               instr_args = [IntArg 16383, IntArg 0],
               comment_str = ''# setting gain for 7'' \<rparr>,
             \<lparr> label_str = '''', instruction = PLAY,
               instr_args = [IntArg 0, IntArg 1, IntArg 4], comment_str = '''' \<rparr>,
             \<lparr> label_str = '''', instruction = WAIT, instr_args = [IntArg 49996],
               comment_str = '''' \<rparr>] @ footer_rows,
          elapsed_time = 100000 \<rparr>
   \<and> (4 :: int) dvd 100000 \<and> (4 :: int) dvd 50000 \<and> (4 :: int) dvd 49996"
  using grid_alignment [OF test_program_long] test_program_long by simp

text \<open>
  The claim as stated fails for a wait longer than 65535 ns: a pulse at time 0 in a
  schedule of 131076 ns is followed by a wait of 131072 ns, emitted as
  \<^verbatim>\<open>wait 65535\<close>, \<^verbatim>\<open>wait 65535\<close>, \<^verbatim>\<open>wait 2\<close>, none of whose operands is a multiple
  of 4.
\<close>

theorem grid_alignment_counterexample:
  "generate_qasm_program (131076 / 10 ^ 9) (Some [test_pulse 7 0])
     (Some (test_wf_dict 7)) None None 1
   = Inr \<lparr> instructions = instructions (body_start 1) @
            [\<lparr> label_str = '''', instruction = SET_AWG_GAIN,
               instr_args = [IntArg 16383, IntArg 0],
               comment_str = ''# setting gain for 7'' \<rparr>,
             \<lparr> label_str = '''', instruction = PLAY,
               instr_args = [IntArg 0, IntArg 1, IntArg 4], comment_str = '''' \<rparr>,
             \<lparr> label_str = '''', instruction = WAIT, instr_args = [IntArg 65535],
               comment_str = ''# auto generated wait'' \<rparr>,
             \<lparr> label_str = '''', instruction = WAIT, instr_args = [IntArg 65535],
               comment_str = ''# auto generated wait'' \<rparr>,
             \<lparr> label_str = '''', instruction = WAIT, instr_args = [IntArg 2],
               comment_str = '''' \<rparr>] @ footer_rows,
          elapsed_time = 131076 \<rparr>
   \<and> \<not> (4 :: int) dvd 65535 \<and> \<not> (4 :: int) dvd 2"
proof -
  have s: "sorted_op_list (Some [test_pulse 7 0]) None = [test_pulse 7 0]"
    by (simp add: sorted_op_list_def)
  have a: "emit_operation (Some (test_wf_dict 7)) None (test_pulse 7 0) (body_start 1)
      = Inr \<lparr> instructions = instructions (body_start 1) @
            [\<lparr> label_str = '''', instruction = SET_AWG_GAIN,
               instr_args = [IntArg 16383, IntArg 0],
               comment_str = ''# setting gain for 7'' \<rparr>,
             \<lparr> label_str = '''', instruction = PLAY,
               instr_args = [IntArg 0, IntArg 1, IntArg 4], comment_str = '''' \<rparr>],
          elapsed_time = 4 \<rparr>"
    using test_emit_pulse [OF to_pulsar_time_examples(1), of 0 None
        "instructions (body_start 1)"]
    by (simp add: body_start_record [symmetric] start_waits_def)
  have n: "nat (131072 div 65535) = Suc (Suc 0)" by simp
  have r: "(131072 :: int) mod 65535 = 2" by simp
  have w: "wait_rows 131072 =
      [\<lparr> label_str = '''', instruction = WAIT, instr_args = [IntArg 65535],
         comment_str = ''# auto generated wait'' \<rparr>,
       \<lparr> label_str = '''', instruction = WAIT, instr_args = [IntArg 65535],
         comment_str = ''# auto generated wait'' \<rparr>,
       \<lparr> label_str = '''', instruction = WAIT, instr_args = [IntArg 2],
         comment_str = '''' \<rparr>]"
    unfolding wait_rows_def n r by (simp add: wait_row_def)
  have "generate_qasm_program (131076 / 10 ^ 9) (Some [test_pulse 7 0])
     (Some (test_wf_dict 7)) None None 1
   = Inr \<lparr> instructions = (instructions (body_start 1) @
            [\<lparr> label_str = '''', instruction = SET_AWG_GAIN,
               instr_args = [IntArg 16383, IntArg 0],
               comment_str = ''# setting gain for 7'' \<rparr>,
             \<lparr> label_str = '''', instruction = PLAY,
               instr_args = [IntArg 0, IntArg 1, IntArg 4], comment_str = '''' \<rparr>])
             @ wait_rows 131072 @ footer_rows,
          elapsed_time = 131076 \<rparr>"
    unfolding generate_qasm_program_eq s emit_operations.simps a bind_Inr
      to_pulsar_time_examples by simp
  then show ?thesis unfolding w by simp
qed

section \<open>Distribution of the operations (\<^verbatim>\<open>assign_pulse_and_acq_info_to_devices\<close>)\<close>

text \<open>
  The function of \<^verbatim>\<open>quantify_scheduler/backends/qblox/helpers.py\<close>. It builds
  \<^verbatim>\<open>OpInfo(name=..., data=..., timing=...)\<close>; this record is \<open>NamedOpInfo\<close> here, to
  keep it apart from the \<^verbatim>\<open>OpInfo\<close> of the emitter above.
\<close>

record NamedOpInfo =
  info_name :: string
  info_data :: pydict
  info_timing :: real

text \<open>
  An operation of the schedule: whether it is a \<^verbatim>\<open>WindowOperation\<close>, its properties
  \<^verbatim>\<open>valid_pulse\<close> and \<^verbatim>\<open>valid_acquisition\<close>, and the entries \<^verbatim>\<open>name\<close>,
  \<^verbatim>\<open>pulse_info\<close> and \<^verbatim>\<open>acquisition_info\<close> of its \<^verbatim>\<open>data\<close>. A schedulable
  carries \<^verbatim>\<open>operation_repr\<close> and \<^verbatim>\<open>abs_time\<close>.
\<close>

record operation =
  is_window_operation :: bool
  valid_pulse :: bool
  valid_acquisition :: bool
  operation_name :: string
  pulse_info :: "pydict list"
  acquisition_info :: "pydict list"

record schedulable =
  operation_repr :: string
  abs_time :: real

record schedule =
  schedulables :: "schedulable list"
  operations :: "(string \<times> operation) list"

text \<open>
  An instrument compiler as far as the distributor uses it: the dicts \<^verbatim>\<open>_pulses\<close>
  and \<^verbatim>\<open>_acquisitions\<close> (both \<^verbatim>\<open>defaultdict(list)\<close>, keyed by port and clock), and
  whether the device can acquire. \<^verbatim>\<open>add_pulse\<close> and \<^verbatim>\<open>add_acquisition\<close> are those of
  \<^verbatim>\<open>InstrumentCompiler\<close>; a device that cannot acquire raises \<^verbatim>\<open>RuntimeError\<close>, as
  \<^verbatim>\<open>Pulsar_QCM.add_acquisition\<close> does.
\<close>

record instrument_compiler =
  pulses_dict :: "((json \<times> json) \<times> NamedOpInfo list) list"
  acquisitions_dict :: "((json \<times> json) \<times> NamedOpInfo list) list"
  supports_acquisition :: bool

definition default_list :: "('k \<times> 'v list) list \<Rightarrow> 'k \<Rightarrow> 'v list" where
  "default_list d k = (case map_of d k of None \<Rightarrow> [] | Some l \<Rightarrow> l)"

definition add_pulse ::
  "json \<Rightarrow> json \<Rightarrow> NamedOpInfo \<Rightarrow> instrument_compiler \<Rightarrow> instrument_compiler" where
  "add_pulse p c info self =
     self\<lparr> pulses_dict :=
       AList.update (p, c) (default_list (pulses_dict self) (p, c) @ [info])
         (pulses_dict self) \<rparr>"

definition add_acquisition ::
  "json \<Rightarrow> json \<Rightarrow> NamedOpInfo \<Rightarrow> instrument_compiler \<Rightarrow> error + instrument_compiler" where
  "add_acquisition p c acq_info self =
     (if \<not> supports_acquisition self then Inl RuntimeError
      else Inr (self\<lparr> acquisitions_dict :=
        AList.update (p, c) (default_list (acquisitions_dict self) (p, c) @ [acq_info])
          (acquisitions_dict self) \<rparr>))"

type_synonym device_compilers = "(string \<times> instrument_compiler) list"

text \<open>
  \<^verbatim>\<open>to_grid_time\<close> with the default grid of 4 ns; the builtin \<^verbatim>\<open>round\<close> rounds a
  tie to the even neighbour, as \<^verbatim>\<open>np.round\<close> does.
\<close>

definition to_grid_time :: "real \<Rightarrow> error + int" where
  "to_grid_time time =
     (let time_ns = np_round (round_double (time * 10 ^ 9)) in
      if time_ns mod 4 \<noteq> 0 then Inl ValueError else Inr time_ns)"

text \<open>
  \<^verbatim>\<open>start + data["t0"]\<close> when the record has \<^verbatim>\<open>t0\<close>, else \<^verbatim>\<open>start\<close>; adding
  something that is not a number is a \<^verbatim>\<open>TypeError\<close>.
\<close>

definition start_time_of :: "real \<Rightarrow> pydict \<Rightarrow> error + real" where
  "start_time_of operation_start_time d =
     (if contains d ''t0''
      then (case map_of d ''t0'' of
              Some (JNum t0) \<Rightarrow> Inr (round_double (operation_start_time + t0))
            | Some (JBool b) \<Rightarrow>
                Inr (round_double (operation_start_time + (if b then 1 else 0)))
            | _ \<Rightarrow> Inl TypeError)
      else Inr operation_start_time)"

text \<open>
  The loop \<^verbatim>\<open>for (map_port, map_clock), device_name in portclock_mapping.items()\<close>
  that distributes a record whose port is \<^verbatim>\<open>None\<close>.
\<close>

fun distribute_clock_operation ::
  "portclock_map \<Rightarrow> json \<Rightarrow> NamedOpInfo \<Rightarrow> device_compilers \<Rightarrow> error + device_compilers" where
  "distribute_clock_operation [] clk combined_data dcs = Inr dcs"
| "distribute_clock_operation (((map_port, map_clock), device_name) # rest) clk combined_data dcs =
     (if map_clock = clk
      then (case map_of dcs device_name of
              None \<Rightarrow> Inl (KeyError (JStr device_name))
            | Some compiler \<Rightarrow>
                distribute_clock_operation rest clk combined_data
                  (AList.update device_name (add_pulse map_port clk combined_data compiler) dcs))
      else distribute_clock_operation rest clk combined_data dcs)"

text \<open>The body of the loop over \<^verbatim>\<open>pulse_info\<close>.\<close>

definition assign_pulse ::
  "portclock_map \<Rightarrow> string \<Rightarrow> real \<Rightarrow> pydict \<Rightarrow> device_compilers \<Rightarrow> error + device_compilers" where
  "assign_pulse portclock_mapping nm operation_start_time pulse_data dcs =
     bind (start_time_of operation_start_time pulse_data) (\<lambda>pulse_start_time.
     bind (to_grid_time pulse_start_time) (\<lambda>_.
       if (case map_of pulse_data ''reference_magnitude'' of
             None \<Rightarrow> False | Some v \<Rightarrow> v \<noteq> JNone)
       then Inl NotImplementedError
       else
         bind (getitem pulse_data ''port'') (\<lambda>p.
         bind (getitem pulse_data ''clock'') (\<lambda>c.
           let combined_data = \<lparr> info_name = nm, info_data = pulse_data,
                                  info_timing = pulse_start_time \<rparr> in
           if p = JNone then distribute_clock_operation portclock_mapping c combined_data dcs
           else if \<not> (hashable p \<and> hashable c) then Inl TypeError
           else (case map_of portclock_mapping (p, c) of
                   None \<Rightarrow> Inl (KeyError (JList [p, c]))
                 | Some device_name \<Rightarrow>
                     (case map_of dcs device_name of
                        None \<Rightarrow> Inl (KeyError (JStr device_name))
                      | Some compiler \<Rightarrow>
                          Inr (AList.update device_name
                                 (add_pulse p c combined_data compiler) dcs)))))))"

fun assign_pulses ::
  "portclock_map \<Rightarrow> string \<Rightarrow> real \<Rightarrow> pydict list \<Rightarrow> device_compilers
     \<Rightarrow> error + device_compilers" where
  "assign_pulses portclock_mapping nm t [] dcs = Inr dcs"
| "assign_pulses portclock_mapping nm t (pulse_data # rest) dcs =
     bind (assign_pulse portclock_mapping nm t pulse_data dcs)
       (assign_pulses portclock_mapping nm t rest)"

text \<open>
  The body of the loop over \<^verbatim>\<open>acquisition_info\<close>. \<^verbatim>\<open>without\<close> belongs to another
  package (\<^verbatim>\<open>quantify_core.utilities.general\<close>) and is a parameter; the dict built
  with it is not used afterwards, only an exception of it matters.
\<close>

fun strip_t0 ::
  "(pydict \<Rightarrow> string list \<Rightarrow> error + pydict) \<Rightarrow> json list \<Rightarrow> error + json list" where
  "strip_t0 without [] = Inr []"
| "strip_t0 without (acq # rest) =
     bind (case acq of
             JDict d \<Rightarrow> if contains d ''t0''
                        then bind (without d [''t0'']) (\<lambda>d'. Inr (JDict d'))
                        else Inr acq
           | _ \<Rightarrow> Inl TypeError)
       (\<lambda>a. bind (strip_t0 without rest) (\<lambda>more. Inr (a # more)))"

definition assign_acquisition ::
  "(pydict \<Rightarrow> string list \<Rightarrow> error + pydict) \<Rightarrow> portclock_map \<Rightarrow> string \<Rightarrow> real \<Rightarrow> pydict
     \<Rightarrow> device_compilers \<Rightarrow> error + device_compilers" where
  "assign_acquisition without portclock_mapping nm operation_start_time acq_data dcs =
     bind (start_time_of operation_start_time acq_data) (\<lambda>acq_start_time.
     bind (getitem acq_data ''port'') (\<lambda>p.
     bind (getitem acq_data ''clock'') (\<lambda>c.
       if p = JNone then Inr dcs
       else
         bind (without acq_data [''t0'', ''waveforms'']) (\<lambda>hashed_dict.
         bind (getitem acq_data ''waveforms'') (\<lambda>waveforms.
         bind (case waveforms of
                 JList l \<Rightarrow> strip_t0 without l
               | _ \<Rightarrow> Inl TypeError) (\<lambda>_.
           let combined_data = \<lparr> info_name = nm, info_data = acq_data,
                                  info_timing = acq_start_time \<rparr> in
           if \<not> (hashable p \<and> hashable c) then Inl TypeError
           else (case map_of portclock_mapping (p, c) of
                   None \<Rightarrow> Inl (KeyError (JList [p, c]))
                 | Some device_name \<Rightarrow>
                     (case map_of dcs device_name of
                        None \<Rightarrow> Inl (KeyError (JStr device_name))
                      | Some compiler \<Rightarrow>
                          bind (add_acquisition p c combined_data compiler) (\<lambda>compiler'.
                            Inr (AList.update device_name compiler' dcs))))))))))"

fun assign_acquisitions ::
  "(pydict \<Rightarrow> string list \<Rightarrow> error + pydict) \<Rightarrow> portclock_map \<Rightarrow> string \<Rightarrow> real
     \<Rightarrow> pydict list \<Rightarrow> device_compilers \<Rightarrow> error + device_compilers" where
  "assign_acquisitions without portclock_mapping nm t [] dcs = Inr dcs"
| "assign_acquisitions without portclock_mapping nm t (acq_data # rest) dcs =
     bind (assign_acquisition without portclock_mapping nm t acq_data dcs)
       (assign_acquisitions without portclock_mapping nm t rest)"

text \<open>The body of the loop over the schedulables, and the loop.\<close>

definition assign_schedulable ::
  "(pydict \<Rightarrow> string list \<Rightarrow> error + pydict) \<Rightarrow> portclock_map \<Rightarrow> (string \<times> operation) list
     \<Rightarrow> schedulable \<Rightarrow> device_compilers \<Rightarrow> error + device_compilers" where
  "assign_schedulable without portclock_mapping ops sch dcs =
     (let op_hash = operation_repr sch in
      case map_of ops op_hash of
        None \<Rightarrow> Inl (KeyError (JStr op_hash))
      | Some op_data \<Rightarrow>
          if is_window_operation op_data then Inr dcs
          else if \<not> valid_pulse op_data \<and> \<not> valid_acquisition op_data then Inl RuntimeError
          else
            let operation_start_time = abs_time sch in
            bind (assign_pulses portclock_mapping (operation_name op_data)
                    operation_start_time (pulse_info op_data) dcs)
              (assign_acquisitions without portclock_mapping (operation_name op_data)
                 operation_start_time (acquisition_info op_data)))"

fun assign_schedulables ::
  "(pydict \<Rightarrow> string list \<Rightarrow> error + pydict) \<Rightarrow> portclock_map \<Rightarrow> (string \<times> operation) list
     \<Rightarrow> schedulable list \<Rightarrow> device_compilers \<Rightarrow> error + device_compilers" where
  "assign_schedulables without portclock_mapping ops [] dcs = Inr dcs"
| "assign_schedulables without portclock_mapping ops (sch # rest) dcs =
     bind (assign_schedulable without portclock_mapping ops sch dcs)
       (assign_schedulables without portclock_mapping ops rest)"

definition assign_pulse_and_acq_info_to_devices ::
  "(pydict \<Rightarrow> string list \<Rightarrow> error + pydict) \<Rightarrow> schedule \<Rightarrow> device_compilers \<Rightarrow> pydict
     \<Rightarrow> error + device_compilers" where
  "assign_pulse_and_acq_info_to_devices without sched dcs hardware_cfg =
     bind (generate_port_clock_to_device_map hardware_cfg) (\<lambda>portclock_mapping.
       assign_schedulables without portclock_mapping (operations sched)
         (schedulables sched) dcs)"

text \<open>A record is among the pulses that a device compiler holds for a port and clock.\<close>

definition has_pulse :: "device_compilers \<Rightarrow> string \<Rightarrow> json \<times> json \<Rightarrow> NamedOpInfo \<Rightarrow> bool" where
  "has_pulse dcs dev key info \<longleftrightarrow>
     (\<exists>compiler. map_of dcs dev = Some compiler
        \<and> info \<in> set (default_list (pulses_dict compiler) key))"

lemma default_list_update:
  "default_list (AList.update k v d) k' = (if k' = k then v else default_list d k')"
  by (simp add: default_list_def update_conv')

lemma has_pulse_add:
  "has_pulse (AList.update dev (add_pulse p c info compiler) dcs) dev (p, c) info"
  by (simp add: has_pulse_def update_conv' add_pulse_def default_list_update)

lemma has_pulse_add_mono:
  assumes "map_of dcs dev = Some compiler" and "has_pulse dcs d k i"
  shows "has_pulse (AList.update dev (add_pulse p c info compiler) dcs) d k i"
proof (cases "d = dev")
  case True
  with assms have "i \<in> set (default_list (pulses_dict compiler) k)"
    by (simp add: has_pulse_def)
  then have "i \<in> set (default_list (pulses_dict (add_pulse p c info compiler)) k)"
    by (auto simp: add_pulse_def default_list_update)
  with True show ?thesis by (simp add: has_pulse_def update_conv')
next
  case False
  with assms(2) show ?thesis by (simp add: has_pulse_def update_conv')
qed

lemma distribute_clock_operation_Inr:
  "distribute_clock_operation pm clk info dcs = Inr dcs' \<Longrightarrow>
     (\<forall>d k i. has_pulse dcs d k i \<longrightarrow> has_pulse dcs' d k i)
     \<and> (\<forall>map_port device_name. ((map_port, clk), device_name) \<in> set pm
           \<longrightarrow> has_pulse dcs' device_name (map_port, clk) info)"
proof (induction pm arbitrary: dcs)
  case Nil
  then show ?case by simp
next
  case (Cons entry pm)
  obtain mp mc dev where e: "entry = ((mp, mc), dev)" by (cases entry) auto
  show ?case
  proof (cases "mc = clk")
    case True
    with Cons.prems e obtain compiler where
      c: "map_of dcs dev = Some compiler"
      and r: "distribute_clock_operation pm clk info
                (AList.update dev (add_pulse mp clk info compiler) dcs) = Inr dcs'"
      by (auto split: option.splits)
    from Cons.IH [OF r] have
      mono: "\<forall>d k i. has_pulse (AList.update dev (add_pulse mp clk info compiler) dcs) d k i
               \<longrightarrow> has_pulse dcs' d k i"
      and rest: "\<forall>map_port device_name. ((map_port, clk), device_name) \<in> set pm
           \<longrightarrow> has_pulse dcs' device_name (map_port, clk) info"
      by blast+
    from mono has_pulse_add_mono [OF c]
    have "\<forall>d k i. has_pulse dcs d k i \<longrightarrow> has_pulse dcs' d k i" by blast
    moreover from mono has_pulse_add [of dev mp clk info compiler dcs]
    have "has_pulse dcs' dev (mp, clk) info" by blast
    ultimately show ?thesis using rest e True by auto
  next
    case False
    with Cons.prems e have "distribute_clock_operation pm clk info dcs = Inr dcs'" by simp
    from Cons.IH [OF this] e False show ?thesis by auto
  qed
qed

lemma assign_pulse_Inr:
  assumes "assign_pulse pm nm t pulse_data dcs = Inr dcs'"
  shows "\<exists>t' p c. start_time_of t pulse_data = Inr t'
     \<and> getitem pulse_data ''port'' = Inr p \<and> getitem pulse_data ''clock'' = Inr c
     \<and> (p = JNone \<longrightarrow>
          distribute_clock_operation pm c
            \<lparr> info_name = nm, info_data = pulse_data, info_timing = t' \<rparr> dcs = Inr dcs')
     \<and> (p \<noteq> JNone \<longrightarrow>
          (\<exists>dev compiler. map_of dcs dev = Some compiler
             \<and> dcs' = AList.update dev
                  (add_pulse p c \<lparr> info_name = nm, info_data = pulse_data, info_timing = t' \<rparr>
                     compiler) dcs))"
proof -
  from assms obtain t' where t': "start_time_of t pulse_data = Inr t'"
    by (auto simp: assign_pulse_def bind_eq_Inr)
  with assms obtain n where "to_grid_time t' = Inr n"
    by (auto simp: assign_pulse_def bind_eq_Inr)
  with assms t' have a: "bind (getitem pulse_data ''port'') (\<lambda>p.
         bind (getitem pulse_data ''clock'') (\<lambda>c.
           let combined_data = \<lparr> info_name = nm, info_data = pulse_data,
                                  info_timing = t' \<rparr> in
           if p = JNone then distribute_clock_operation pm c combined_data dcs
           else if \<not> (hashable p \<and> hashable c) then Inl TypeError
           else (case map_of pm (p, c) of
                   None \<Rightarrow> Inl (KeyError (JList [p, c]))
                 | Some device_name \<Rightarrow>
                     (case map_of dcs device_name of
                        None \<Rightarrow> Inl (KeyError (JStr device_name))
                      | Some compiler \<Rightarrow>
                          Inr (AList.update device_name
                                 (add_pulse p c combined_data compiler) dcs))))) = Inr dcs'"
    by (simp add: assign_pulse_def split: if_splits)
  then obtain p where p: "getitem pulse_data ''port'' = Inr p"
    by (auto simp: bind_eq_Inr)
  with a obtain c where c: "getitem pulse_data ''clock'' = Inr c"
    by (auto simp: bind_eq_Inr)
  from a p c have b: "(if p = JNone then distribute_clock_operation pm c
             \<lparr> info_name = nm, info_data = pulse_data, info_timing = t' \<rparr> dcs
           else if \<not> (hashable p \<and> hashable c) then Inl TypeError
           else (case map_of pm (p, c) of
                   None \<Rightarrow> Inl (KeyError (JList [p, c]))
                 | Some device_name \<Rightarrow>
                     (case map_of dcs device_name of
                        None \<Rightarrow> Inl (KeyError (JStr device_name))
                      | Some compiler \<Rightarrow>
                          Inr (AList.update device_name
                                 (add_pulse p c \<lparr> info_name = nm, info_data = pulse_data,
                                    info_timing = t' \<rparr> compiler) dcs)))) = Inr dcs'"
    by (simp add: Let_def)
  have "p \<noteq> JNone \<longrightarrow>
          (\<exists>dev compiler. map_of dcs dev = Some compiler
             \<and> dcs' = AList.update dev
                  (add_pulse p c \<lparr> info_name = nm, info_data = pulse_data, info_timing = t' \<rparr>
                     compiler) dcs)"
    using b by (auto split: if_splits option.splits)
  moreover have "p = JNone \<longrightarrow>
          distribute_clock_operation pm c
            \<lparr> info_name = nm, info_data = pulse_data, info_timing = t' \<rparr> dcs = Inr dcs'"
    using b by (auto split: if_splits)
  ultimately show ?thesis using t' p c by blast
qed

lemma assign_pulse_mono:
  assumes "assign_pulse pm nm t pulse_data dcs = Inr dcs'" and "has_pulse dcs d k i"
  shows "has_pulse dcs' d k i"
proof -
  from assign_pulse_Inr [OF assms(1)] obtain t' p c where
    n: "p = JNone \<longrightarrow>
          distribute_clock_operation pm c
            \<lparr> info_name = nm, info_data = pulse_data, info_timing = t' \<rparr> dcs = Inr dcs'"
    and s: "p \<noteq> JNone \<longrightarrow>
          (\<exists>dev compiler. map_of dcs dev = Some compiler
             \<and> dcs' = AList.update dev
                  (add_pulse p c \<lparr> info_name = nm, info_data = pulse_data, info_timing = t' \<rparr>
                     compiler) dcs)"
    by blast
  show ?thesis
  proof (cases "p = JNone")
    case True
    with n distribute_clock_operation_Inr assms(2) show ?thesis by blast
  next
    case False
    with s assms(2) show ?thesis by (auto simp: has_pulse_add_mono)
  qed
qed

lemma assign_pulse_fan_out:
  assumes "assign_pulse pm nm t pulse_data dcs = Inr dcs'"
    and "map_of pulse_data ''port'' = Some JNone"
    and "map_of pulse_data ''clock'' = Some clk"
    and "((map_port, clk), device_name) \<in> set pm"
  shows "\<exists>t'. start_time_of t pulse_data = Inr t'
     \<and> has_pulse dcs' device_name (map_port, clk)
          \<lparr> info_name = nm, info_data = pulse_data, info_timing = t' \<rparr>"
proof -
  from assign_pulse_Inr [OF assms(1)] assms(2,3) obtain t' where
    t': "start_time_of t pulse_data = Inr t'"
    and r: "distribute_clock_operation pm clk
              \<lparr> info_name = nm, info_data = pulse_data, info_timing = t' \<rparr> dcs = Inr dcs'"
    by (auto simp: getitem_def)
  from distribute_clock_operation_Inr [OF r] assms(4) t' show ?thesis by blast
qed

lemma assign_pulses_mono:
  "assign_pulses pm nm t pds dcs = Inr dcs' \<Longrightarrow> has_pulse dcs d k i \<Longrightarrow> has_pulse dcs' d k i"
proof (induction pds arbitrary: dcs)
  case Nil
  then show ?case by simp
next
  case (Cons pulse_data pds)
  from Cons.prems(1) obtain dcs1 where
    a: "assign_pulse pm nm t pulse_data dcs = Inr dcs1"
    and b: "assign_pulses pm nm t pds dcs1 = Inr dcs'"
    by (auto simp: bind_eq_Inr)
  from assign_pulse_mono [OF a Cons.prems(2)] b show ?case by (rule Cons.IH [rotated])
qed

lemma assign_pulses_fan_out:
  "assign_pulses pm nm t pds dcs = Inr dcs' \<Longrightarrow> pulse_data \<in> set pds
     \<Longrightarrow> map_of pulse_data ''port'' = Some JNone
     \<Longrightarrow> map_of pulse_data ''clock'' = Some clk
     \<Longrightarrow> ((map_port, clk), device_name) \<in> set pm
     \<Longrightarrow> \<exists>t'. start_time_of t pulse_data = Inr t'
           \<and> has_pulse dcs' device_name (map_port, clk)
                \<lparr> info_name = nm, info_data = pulse_data, info_timing = t' \<rparr>"
proof (induction pds arbitrary: dcs)
  case Nil
  then show ?case by simp
next
  case (Cons pd pds)
  from Cons.prems(1) obtain dcs1 where
    a: "assign_pulse pm nm t pd dcs = Inr dcs1"
    and b: "assign_pulses pm nm t pds dcs1 = Inr dcs'"
    by (auto simp: bind_eq_Inr)
  show ?case
  proof (cases "pulse_data = pd")
    case True
    from assign_pulse_fan_out [OF a [folded True] Cons.prems(3,4,5)] obtain t' where
      "start_time_of t pulse_data = Inr t'"
      "has_pulse dcs1 device_name (map_port, clk)
         \<lparr> info_name = nm, info_data = pulse_data, info_timing = t' \<rparr>"
      by blast
    with assign_pulses_mono [OF b] show ?thesis by blast
  next
    case False
    with Cons.prems(2) have "pulse_data \<in> set pds" by simp
    from Cons.IH [OF b this Cons.prems(3,4,5)] show ?thesis .
  qed
qed

lemma has_pulse_update_same_pulses:
  assumes "map_of dcs dev = Some compiler" and "pulses_dict compiler' = pulses_dict compiler"
    and "has_pulse dcs d k i"
  shows "has_pulse (AList.update dev compiler' dcs) d k i"
  using assms by (cases "d = dev") (auto simp: has_pulse_def update_conv')

lemma add_acquisition_pulses:
  "add_acquisition p c info compiler = Inr compiler'
     \<Longrightarrow> pulses_dict compiler' = pulses_dict compiler"
  by (auto simp: add_acquisition_def split: if_splits)

lemma assign_acquisition_mono:
  assumes "assign_acquisition without pm nm t acq_data dcs = Inr dcs'"
    and "has_pulse dcs d k i"
  shows "has_pulse dcs' d k i"
proof -
  from assms(1) [unfolded assign_acquisition_def] obtain t' where
    r1: "bind (getitem acq_data ''port'') (\<lambda>p.
     bind (getitem acq_data ''clock'') (\<lambda>c.
       if p = JNone then Inr dcs
       else
         bind (without acq_data [''t0'', ''waveforms'']) (\<lambda>hashed_dict.
         bind (getitem acq_data ''waveforms'') (\<lambda>waveforms.
         bind (case waveforms of
                 JList l \<Rightarrow> strip_t0 without l
               | _ \<Rightarrow> Inl TypeError) (\<lambda>_.
           let combined_data = \<lparr> info_name = nm, info_data = acq_data,
                                  info_timing = t' \<rparr> in
           if \<not> (hashable p \<and> hashable c) then Inl TypeError
           else (case map_of pm (p, c) of
                   None \<Rightarrow> Inl (KeyError (JList [p, c]))
                 | Some device_name \<Rightarrow>
                     (case map_of dcs device_name of
                        None \<Rightarrow> Inl (KeyError (JStr device_name))
                      | Some compiler \<Rightarrow>
                          bind (add_acquisition p c combined_data compiler) (\<lambda>compiler'.
                            Inr (AList.update device_name compiler' dcs))))))))) = Inr dcs'"
    by (rule bindE)
  from r1 obtain p where
    r2: "bind (getitem acq_data ''clock'') (\<lambda>c.
       if p = JNone then Inr dcs
       else
         bind (without acq_data [''t0'', ''waveforms'']) (\<lambda>hashed_dict.
         bind (getitem acq_data ''waveforms'') (\<lambda>waveforms.
         bind (case waveforms of
                 JList l \<Rightarrow> strip_t0 without l
               | _ \<Rightarrow> Inl TypeError) (\<lambda>_.
           let combined_data = \<lparr> info_name = nm, info_data = acq_data,
                                  info_timing = t' \<rparr> in
           if \<not> (hashable p \<and> hashable c) then Inl TypeError
           else (case map_of pm (p, c) of
                   None \<Rightarrow> Inl (KeyError (JList [p, c]))
                 | Some device_name \<Rightarrow>
                     (case map_of dcs device_name of
                        None \<Rightarrow> Inl (KeyError (JStr device_name))
                      | Some compiler \<Rightarrow>
                          bind (add_acquisition p c combined_data compiler) (\<lambda>compiler'.
                            Inr (AList.update device_name compiler' dcs)))))))) = Inr dcs'"
    by (rule bindE)
  from r2 obtain c where
    r3: "(if p = JNone then Inr dcs
       else
         bind (without acq_data [''t0'', ''waveforms'']) (\<lambda>hashed_dict.
         bind (getitem acq_data ''waveforms'') (\<lambda>waveforms.
         bind (case waveforms of
                 JList l \<Rightarrow> strip_t0 without l
               | _ \<Rightarrow> Inl TypeError) (\<lambda>_.
           let combined_data = \<lparr> info_name = nm, info_data = acq_data,
                                  info_timing = t' \<rparr> in
           if \<not> (hashable p \<and> hashable c) then Inl TypeError
           else (case map_of pm (p, c) of
                   None \<Rightarrow> Inl (KeyError (JList [p, c]))
                 | Some device_name \<Rightarrow>
                     (case map_of dcs device_name of
                        None \<Rightarrow> Inl (KeyError (JStr device_name))
                      | Some compiler \<Rightarrow>
                          bind (add_acquisition p c combined_data compiler) (\<lambda>compiler'.
                            Inr (AList.update device_name compiler' dcs)))))))) = Inr dcs'"
    by (rule bindE)
  show ?thesis
  proof (cases "p = JNone")
    case True
    with r3 assms(2) show ?thesis by simp
  next
    case False
    with r3 have "bind (without acq_data [''t0'', ''waveforms'']) (\<lambda>hashed_dict.
         bind (getitem acq_data ''waveforms'') (\<lambda>waveforms.
         bind (case waveforms of
                 JList l \<Rightarrow> strip_t0 without l
               | _ \<Rightarrow> Inl TypeError) (\<lambda>_.
           let combined_data = \<lparr> info_name = nm, info_data = acq_data,
                                  info_timing = t' \<rparr> in
           if \<not> (hashable p \<and> hashable c) then Inl TypeError
           else (case map_of pm (p, c) of
                   None \<Rightarrow> Inl (KeyError (JList [p, c]))
                 | Some device_name \<Rightarrow>
                     (case map_of dcs device_name of
                        None \<Rightarrow> Inl (KeyError (JStr device_name))
                      | Some compiler \<Rightarrow>
                          bind (add_acquisition p c combined_data compiler) (\<lambda>compiler'.
                            Inr (AList.update device_name compiler' dcs))))))) = Inr dcs'"
      by (simp only: if_False)
    then obtain h where
      r4: "bind (getitem acq_data ''waveforms'') (\<lambda>waveforms.
         bind (case waveforms of
                 JList l \<Rightarrow> strip_t0 without l
               | _ \<Rightarrow> Inl TypeError) (\<lambda>_.
           let combined_data = \<lparr> info_name = nm, info_data = acq_data,
                                  info_timing = t' \<rparr> in
           if \<not> (hashable p \<and> hashable c) then Inl TypeError
           else (case map_of pm (p, c) of
                   None \<Rightarrow> Inl (KeyError (JList [p, c]))
                 | Some device_name \<Rightarrow>
                     (case map_of dcs device_name of
                        None \<Rightarrow> Inl (KeyError (JStr device_name))
                      | Some compiler \<Rightarrow>
                          bind (add_acquisition p c combined_data compiler) (\<lambda>compiler'.
                            Inr (AList.update device_name compiler' dcs)))))) = Inr dcs'"
      by (rule bindE)
    from r4 obtain w where
      r5: "bind (case w of
                 JList l \<Rightarrow> strip_t0 without l
               | _ \<Rightarrow> Inl TypeError) (\<lambda>_.
           let combined_data = \<lparr> info_name = nm, info_data = acq_data,
                                  info_timing = t' \<rparr> in
           if \<not> (hashable p \<and> hashable c) then Inl TypeError
           else (case map_of pm (p, c) of
                   None \<Rightarrow> Inl (KeyError (JList [p, c]))
                 | Some device_name \<Rightarrow>
                     (case map_of dcs device_name of
                        None \<Rightarrow> Inl (KeyError (JStr device_name))
                      | Some compiler \<Rightarrow>
                          bind (add_acquisition p c combined_data compiler) (\<lambda>compiler'.
                            Inr (AList.update device_name compiler' dcs))))) = Inr dcs'"
      by (rule bindE)
    from r5 obtain u where
      r6: "(let combined_data = \<lparr> info_name = nm, info_data = acq_data,
                                  info_timing = t' \<rparr> in
           if \<not> (hashable p \<and> hashable c) then Inl TypeError
           else (case map_of pm (p, c) of
                   None \<Rightarrow> Inl (KeyError (JList [p, c]))
                 | Some device_name \<Rightarrow>
                     (case map_of dcs device_name of
                        None \<Rightarrow> Inl (KeyError (JStr device_name))
                      | Some compiler \<Rightarrow>
                          bind (add_acquisition p c combined_data compiler) (\<lambda>compiler'.
                            Inr (AList.update device_name compiler' dcs))))) = Inr dcs'"
      by (rule bindE)
    from r6 obtain dev compiler compiler' where
      "map_of dcs dev = Some compiler"
      "add_acquisition p c \<lparr> info_name = nm, info_data = acq_data, info_timing = t' \<rparr>
         compiler = Inr compiler'"
      "dcs' = AList.update dev compiler' dcs"
      by (auto simp: Let_def bind_eq_Inr split: if_splits option.splits)
    with add_acquisition_pulses assms(2) show ?thesis
      by (simp add: has_pulse_update_same_pulses)
  qed
qed

lemma assign_acquisitions_mono:
  "assign_acquisitions without pm nm t acqs dcs = Inr dcs' \<Longrightarrow> has_pulse dcs d k i
     \<Longrightarrow> has_pulse dcs' d k i"
proof (induction acqs arbitrary: dcs)
  case Nil
  then show ?case by simp
next
  case (Cons acq_data acqs)
  from Cons.prems(1) obtain dcs1 where
    a: "assign_acquisition without pm nm t acq_data dcs = Inr dcs1"
    and b: "assign_acquisitions without pm nm t acqs dcs1 = Inr dcs'"
    by (auto simp: bind_eq_Inr)
  from assign_acquisition_mono [OF a Cons.prems(2)] b show ?case by (rule Cons.IH [rotated])
qed

lemma assign_schedulable_mono:
  assumes "assign_schedulable without pm ops sch dcs = Inr dcs'" and "has_pulse dcs d k i"
  shows "has_pulse dcs' d k i"
proof (cases "map_of ops (operation_repr sch)")
  case None
  with assms(1) show ?thesis by (simp add: assign_schedulable_def)
next
  case (Some op_data)
  show ?thesis
  proof (cases "is_window_operation op_data")
    case True
    with Some assms show ?thesis by (simp add: assign_schedulable_def)
  next
    case False
    with Some assms(1) obtain dcs1 where
      a: "assign_pulses pm (operation_name op_data) (abs_time sch) (pulse_info op_data) dcs
            = Inr dcs1"
      and b: "assign_acquisitions without pm (operation_name op_data) (abs_time sch)
             (acquisition_info op_data) dcs1 = Inr dcs'"
      unfolding assign_schedulable_def Let_def
      by (auto simp: bind_eq_Inr split: if_splits)
    from assign_pulses_mono [OF a assms(2)] b show ?thesis
      by (rule assign_acquisitions_mono [rotated])
  qed
qed

lemma assign_schedulable_fan_out:
  assumes "assign_schedulable without pm ops sch dcs = Inr dcs'"
    and "map_of ops (operation_repr sch) = Some op_data"
    and "\<not> is_window_operation op_data"
    and "pulse_data \<in> set (pulse_info op_data)"
    and "map_of pulse_data ''port'' = Some JNone"
    and "map_of pulse_data ''clock'' = Some clk"
    and "((map_port, clk), device_name) \<in> set pm"
  shows "\<exists>t'. start_time_of (abs_time sch) pulse_data = Inr t'
           \<and> has_pulse dcs' device_name (map_port, clk)
                \<lparr> info_name = operation_name op_data, info_data = pulse_data,
                  info_timing = t' \<rparr>"
proof -
  from assms(1,2,3) obtain dcs1 where
    a: "assign_pulses pm (operation_name op_data) (abs_time sch) (pulse_info op_data) dcs
          = Inr dcs1"
    and b: "assign_acquisitions without pm (operation_name op_data) (abs_time sch)
           (acquisition_info op_data) dcs1 = Inr dcs'"
    unfolding assign_schedulable_def Let_def
    by (auto simp: bind_eq_Inr split: if_splits)
  from assign_pulses_fan_out [OF a assms(4,5,6,7)] obtain t' where
    "start_time_of (abs_time sch) pulse_data = Inr t'"
    "has_pulse dcs1 device_name (map_port, clk)
       \<lparr> info_name = operation_name op_data, info_data = pulse_data, info_timing = t' \<rparr>"
    by blast
  with assign_acquisitions_mono [OF b] show ?thesis by blast
qed

lemma assign_schedulables_mono:
  "assign_schedulables without pm ops schs dcs = Inr dcs' \<Longrightarrow> has_pulse dcs d k i
     \<Longrightarrow> has_pulse dcs' d k i"
proof (induction schs arbitrary: dcs)
  case Nil
  then show ?case by simp
next
  case (Cons sch schs)
  from Cons.prems(1) obtain dcs1 where
    a: "assign_schedulable without pm ops sch dcs = Inr dcs1"
    and b: "assign_schedulables without pm ops schs dcs1 = Inr dcs'"
    by (auto simp: bind_eq_Inr)
  from assign_schedulable_mono [OF a Cons.prems(2)] b show ?case by (rule Cons.IH [rotated])
qed

lemma assign_schedulables_fan_out:
  "assign_schedulables without pm ops schs dcs = Inr dcs' \<Longrightarrow> sch \<in> set schs
     \<Longrightarrow> map_of ops (operation_repr sch) = Some op_data
     \<Longrightarrow> \<not> is_window_operation op_data
     \<Longrightarrow> pulse_data \<in> set (pulse_info op_data)
     \<Longrightarrow> map_of pulse_data ''port'' = Some JNone
     \<Longrightarrow> map_of pulse_data ''clock'' = Some clk
     \<Longrightarrow> ((map_port, clk), device_name) \<in> set pm
     \<Longrightarrow> \<exists>t'. start_time_of (abs_time sch) pulse_data = Inr t'
           \<and> has_pulse dcs' device_name (map_port, clk)
                \<lparr> info_name = operation_name op_data, info_data = pulse_data,
                  info_timing = t' \<rparr>"
proof (induction schs arbitrary: dcs)
  case Nil
  then show ?case by simp
next
  case (Cons s schs)
  from Cons.prems(1) obtain dcs1 where
    a: "assign_schedulable without pm ops s dcs = Inr dcs1"
    and b: "assign_schedulables without pm ops schs dcs1 = Inr dcs'"
    by (auto simp: bind_eq_Inr)
  show ?case
  proof (cases "sch = s")
    case True
    from assign_schedulable_fan_out [OF a [folded True] Cons.prems(3,4,5,6,7,8)]
    obtain t' where
      "start_time_of (abs_time sch) pulse_data = Inr t'"
      "has_pulse dcs1 device_name (map_port, clk)
         \<lparr> info_name = operation_name op_data, info_data = pulse_data, info_timing = t' \<rparr>"
      by blast
    with assign_schedulables_mono [OF b] show ?thesis by blast
  next
    case False
    with Cons.prems(2) have "sch \<in> set schs" by simp
    from Cons.IH [OF b this Cons.prems(3,4,5,6,7,8)] show ?thesis .
  qed
qed

end
